theory Spec2Isabelle
  imports Main "HOL-Library.Product_Lexorder" "HOL-Library.AList"
begin

section \<open>Python text primitives used by generate\_invoice.py\<close>

text \<open>
  A Python \<^verbatim>\<open>str\<close> is modelled as a \<^typ>\<open>string\<close> whose characters are the code
  points 0 to 255. In that range the decimal digits that \<^verbatim>\<open>\d\<close> and \<^verbatim>\<open>int()\<close> accept
  are exactly \<^verbatim>\<open>0\<close> to \<^verbatim>\<open>9\<close>, and the characters \<^verbatim>\<open>str.strip()\<close> removes are the
  twelve listed in \<open>py_isspace\<close>. Text with code points above 255 and CPython's
  configurable limit on the length of integer literals are outside the model.
\<close>

definition is_digit :: "char \<Rightarrow> bool" where
  "is_digit c = (c \<in> set ''0123456789'')"

definition newline :: char where
  "newline = CHR 0x0A"

definition py_isspace :: "char \<Rightarrow> bool" where
  "py_isspace c = ((of_char c :: nat) \<in> {9, 10, 11, 12, 13, 28, 29, 30, 31, 32, 133, 160})"

text \<open>\<^verbatim>\<open>s.strip()\<close>: whitespace is dropped at both ends.\<close>

definition py_strip :: "string \<Rightarrow> string" where
  "py_strip s = rev (dropWhile py_isspace (rev (dropWhile py_isspace s)))"

definition digit_val :: "char \<Rightarrow> int" where
  "digit_val c = int (of_char c) - 48"

definition digits_val :: "string \<Rightarrow> int" where
  "digits_val ds = foldl (\<lambda>acc c. 10 * acc + digit_val c) 0 ds"

text \<open>
  The digit part of an integer literal as \<^verbatim>\<open>int()\<close> reads it in base 10: digits, with
  single underscores allowed between two digits.
\<close>

fun int_body_ok :: "string \<Rightarrow> bool" where
  "int_body_ok [] = False"
| "int_body_ok [c] = is_digit c"
| "int_body_ok (c # d # r) =
     (is_digit c \<and> (if d = CHR ''_'' then int_body_ok r else int_body_ok (d # r)))"

text \<open>
  \<^verbatim>\<open>int(s)\<close> for a string without surrounding whitespace, which is what both call
  sites pass (a stripped line, or a group of digits): an optional sign, then the digit
  part. \<open>None\<close> stands for the \<^verbatim>\<open>ValueError\<close> that \<^verbatim>\<open>int()\<close> raises.
\<close>

definition py_int :: "string \<Rightarrow> int option" where
  "py_int s =
     (case s of
        [] \<Rightarrow> None
      | c # r \<Rightarrow>
          (let (sgn, body) =
                 (if c = CHR ''-'' then (- 1, r) else if c = CHR ''+'' then (1, r) else (1, s))
           in if int_body_ok body
              then Some (sgn * digits_val (filter (\<lambda>x. x \<noteq> CHR ''_'') body))
              else None))"

definition digit_char :: "nat \<Rightarrow> char" where
  "digit_char d = ''0123456789'' ! d"

fun str_nat :: "nat \<Rightarrow> string" where
  "str_nat n = (if n < 10 then [digit_char n] else str_nat (n div 10) @ [digit_char (n mod 10)])"

declare str_nat.simps [simp del]

text \<open>\<^verbatim>\<open>str(i)\<close>, which is also what \<^verbatim>\<open>f"{i}"\<close> produces.\<close>

definition py_str_int :: "int \<Rightarrow> string" where
  "py_str_int i = (if i < 0 then CHR ''-'' # str_nat (nat (- i)) else str_nat (nat i))"

definition zfill :: "nat \<Rightarrow> string \<Rightarrow> string" where
  "zfill w s = replicate (w - length s) CHR ''0'' @ s"

text \<open>\<^verbatim>\<open>f"{i:0Wd}"\<close>: the sign first, then zeros up to the total width \<open>W\<close>.\<close>

definition fmt_zero :: "nat \<Rightarrow> int \<Rightarrow> string" where
  "fmt_zero w i =
     (if i < 0 then CHR ''-'' # zfill (w - 1) (str_nat (nat (- i))) else zfill w (str_nat (nat i)))"

text \<open>\<^verbatim>\<open>sep.join(xs)\<close>.\<close>

fun join :: "string \<Rightarrow> string list \<Rightarrow> string" where
  "join sep [] = []"
| "join sep [x] = x"
| "join sep (x # y # ys) = x @ sep @ join sep (y # ys)"

section \<open>Regular expressions of the program\<close>

text \<open>A literal piece of a pattern at the start of the text; the rest is returned.\<close>

fun strip_prefix :: "string \<Rightarrow> string \<Rightarrow> string option" where
  "strip_prefix [] s = Some s"
| "strip_prefix (p # ps) [] = None"
| "strip_prefix (p # ps) (c # cs) = (if p = c then strip_prefix ps cs else None)"

text \<open>\<^verbatim>\<open>(\d{n})\<close> at the start of the text: the group and the rest.\<close>

definition take_digits :: "nat \<Rightarrow> string \<Rightarrow> (string \<times> string) option" where
  "take_digits n s =
     (if n \<le> length s \<and> list_all is_digit (take n s) then Some (take n s, drop n s) else None)"

text \<open>
  \<^verbatim>\<open>$\<close> without the MULTILINE flag: Python's \<^verbatim>\<open>re\<close> matches it at the end of the
  string and also just before a newline that is the string's last character.
\<close>

definition at_dollar :: "string \<Rightarrow> bool" where
  "at_dollar r = (r = [] \<or> r = [newline])"

text \<open>
  \<^verbatim>\<open>(\d+)\.pdf$\<close>: the greedy group takes every leading digit (the next character of the
  pattern is a dot, so giving a digit back can never help).
\<close>

definition number_and_suffix :: "string \<Rightarrow> string option" where
  "number_and_suffix r =
     (let g = takeWhile is_digit r in
      if g = [] then None
      else (case strip_prefix ''.pdf'' (dropWhile is_digit r) of
              None \<Rightarrow> None
            | Some rest \<Rightarrow> if at_dollar rest then Some g else None))"

text \<open>\<^verbatim>\<open>re.compile(r"^Invoice_(\d{4})_(\d{2})_#(\d+)\.pdf$").match(name)\<close>: the three groups.\<close>

definition pattern_new :: "string \<Rightarrow> (string \<times> string \<times> string) option" where
  "pattern_new name =
     (case strip_prefix ''Invoice_'' name of None \<Rightarrow> None | Some r1 \<Rightarrow>
      case take_digits 4 r1 of None \<Rightarrow> None | Some (g1, r2) \<Rightarrow>
      case strip_prefix ''_'' r2 of None \<Rightarrow> None | Some r3 \<Rightarrow>
      case take_digits 2 r3 of None \<Rightarrow> None | Some (g2, r4) \<Rightarrow>
      case strip_prefix ''_#'' r4 of None \<Rightarrow> None | Some r5 \<Rightarrow>
      case number_and_suffix r5 of None \<Rightarrow> None | Some g3 \<Rightarrow> Some (g1, g2, g3))"

text \<open>\<^verbatim>\<open>re.compile(r"^Invoice_(\d{2})_(\d{4})_#(\d+)\.pdf$").match(name)\<close>.\<close>

definition pattern_old :: "string \<Rightarrow> (string \<times> string \<times> string) option" where
  "pattern_old name =
     (case strip_prefix ''Invoice_'' name of None \<Rightarrow> None | Some r1 \<Rightarrow>
      case take_digits 2 r1 of None \<Rightarrow> None | Some (g1, r2) \<Rightarrow>
      case strip_prefix ''_'' r2 of None \<Rightarrow> None | Some r3 \<Rightarrow>
      case take_digits 4 r3 of None \<Rightarrow> None | Some (g2, r4) \<Rightarrow>
      case strip_prefix ''_#'' r4 of None \<Rightarrow> None | Some r5 \<Rightarrow>
      case number_and_suffix r5 of None \<Rightarrow> None | Some g3 \<Rightarrow> Some (g1, g2, g3))"

text \<open>\<^verbatim>\<open>re.fullmatch(r"(\d{1,2})", raw)\<close>.\<close>

definition fullmatch_m1 :: "string \<Rightarrow> string option" where
  "fullmatch_m1 s =
     (if (length s = 1 \<or> length s = 2) \<and> list_all is_digit s then Some s else None)"

text \<open>
  \<^verbatim>\<open>re.fullmatch(r"(\d{1,2})/(\d{4})", raw)\<close>: a slash must follow the first group, so
  the group is the whole run of leading digits, of length one or two.
\<close>

definition fullmatch_m2 :: "string \<Rightarrow> (string \<times> string) option" where
  "fullmatch_m2 s =
     (let g1 = takeWhile is_digit s in
      if length g1 = 1 \<or> length g1 = 2
      then (case strip_prefix ''/'' (dropWhile is_digit s) of
              None \<Rightarrow> None
            | Some g2 \<Rightarrow> if length g2 = 4 \<and> list_all is_digit g2 then Some (g1, g2) else None)
      else None)"

text \<open>\<^verbatim>\<open>re.fullmatch(r"(\d{4})-(\d{1,2})", raw)\<close>.\<close>

definition fullmatch_m3 :: "string \<Rightarrow> (string \<times> string) option" where
  "fullmatch_m3 s =
     (case take_digits 4 s of None \<Rightarrow> None | Some (g1, r) \<Rightarrow>
      case strip_prefix ''-'' r of None \<Rightarrow> None | Some g2 \<Rightarrow>
      if (length g2 = 1 \<or> length g2 = 2) \<and> list_all is_digit g2 then Some (g1, g2) else None)"

text \<open>
  \<^verbatim>\<open>Path.glob("Invoice_*.pdf")\<close> on the names of a directory: the name starts with
  \<^verbatim>\<open>Invoice_\<close> and what follows ends with \<^verbatim>\<open>.pdf\<close> (case-sensitive, as on POSIX).
\<close>

definition glob_invoice_pdf :: "string \<Rightarrow> bool" where
  "glob_invoice_pdf name =
     (case strip_prefix ''Invoice_'' name of
        None \<Rightarrow> False
      | Some r \<Rightarrow> 4 \<le> length r \<and> drop (length r - 4) r = ''.pdf'')"

section \<open>Data model and errors\<close>

record InvoiceTarget =
  month :: int
  year :: int

definition month_str :: "InvoiceTarget \<Rightarrow> string" where
  "month_str t = fmt_zero 2 (month t)"

definition year_str :: "InvoiceTarget \<Rightarrow> string" where
  "year_str t = fmt_zero 4 (year t)"

definition ym_str :: "InvoiceTarget \<Rightarrow> string" where
  "ym_str t = year_str t @ ''-'' @ month_str t"

text \<open>
  One constructor per place where the program raises. The first seven are
  \<^verbatim>\<open>ValueError\<close>s: of \<^verbatim>\<open>_load_env\<close> (with the missing keys), of
  \<^verbatim>\<open>_read_last_invoice_number\<close> (with the stripped content), of \<^verbatim>\<open>int()\<close> on a regex
  group, and the four of \<^verbatim>\<open>_prompt_target\<close>. \<open>NodeNotFound\<close> and \<open>PythonNotFound\<close>
  are the \<^verbatim>\<open>RuntimeError\<close>s of \<^verbatim>\<open>_ensure_playwright_ready\<close>, \<open>EndOfInput\<close> is the
  \<^verbatim>\<open>EOFError\<close> of \<^verbatim>\<open>input()\<close>, and \<open>External\<close> is an exception raised inside a
  collaborator (Jinja2, Playwright, \<^verbatim>\<open>shutil.move\<close>).
\<close>

datatype error =
    MissingRequiredKeys "string list"
  | InvalidCounterContent string
  | InvalidIntLiteral string
  | NoInputProvided
  | InvalidFormat
  | MonthOutOfRange
  | YearLooksInvalid
  | NodeNotFound
  | PythonNotFound
  | EndOfInput
  | External string

section \<open>Filename parser, discovery and the sequence counter\<close>

text \<open>\<^verbatim>\<open>int(g)\<close> as a step that may raise.\<close>

definition int_of_group :: "string \<Rightarrow> error + int" where
  "int_of_group g = (case py_int g of None \<Rightarrow> Inl (InvalidIntLiteral g) | Some v \<Rightarrow> Inr v)"

text \<open>\<^verbatim>\<open>_parse_invoice_filename\<close> (lines 105-125): the result is (year, month, number).\<close>

definition parse_invoice_filename ::
  "string \<Rightarrow> error + (int option \<times> int option \<times> int option)" where
  "parse_invoice_filename name =
     (case pattern_new name of
        Some (g1, g2, g3) \<Rightarrow>
          (case int_of_group g1 of Inl e \<Rightarrow> Inl e | Inr y \<Rightarrow>
           case int_of_group g2 of Inl e \<Rightarrow> Inl e | Inr m \<Rightarrow>
           case int_of_group g3 of Inl e \<Rightarrow> Inl e | Inr n \<Rightarrow>
           Inr (Some y, Some m, Some n))
      | None \<Rightarrow>
          (case pattern_old name of
             Some (g1, g2, g3) \<Rightarrow>
               (case int_of_group g1 of Inl e \<Rightarrow> Inl e | Inr m \<Rightarrow>
                case int_of_group g2 of Inl e \<Rightarrow> Inl e | Inr y \<Rightarrow>
                case int_of_group g3 of Inl e \<Rightarrow> Inl e | Inr n \<Rightarrow>
                Inr (Some y, Some m, Some n))
           | None \<Rightarrow> Inr (None, None, None)))"

text \<open>
  The loop of \<^verbatim>\<open>_list_generated_targets\<close> (lines 133-138) over the names the glob
  yields, with the set \<^verbatim>\<open>targets\<close> as accumulator.
\<close>

fun scan_targets :: "string list \<Rightarrow> (int \<times> int) set \<Rightarrow> error + (int \<times> int) set" where
  "scan_targets [] targets = Inr targets"
| "scan_targets (p # ps) targets =
     (case parse_invoice_filename p of
        Inl e \<Rightarrow> Inl e
      | Inr (y_opt, m_opt, n_opt) \<Rightarrow>
          (case y_opt of
             None \<Rightarrow> scan_targets ps targets
           | Some y \<Rightarrow>
               (case m_opt of
                  None \<Rightarrow> scan_targets ps targets
                | Some m \<Rightarrow>
                    if 1 \<le> m \<and> m \<le> 12 then scan_targets ps (insert (y, m) targets)
                    else scan_targets ps targets)))"

text \<open>
  \<^verbatim>\<open>_list_generated_targets\<close> (lines 128-140). The directory is \<open>None\<close> when it does not
  exist and otherwise the list of the names in it, in the order the file system gives
  them. \<^verbatim>\<open>sorted\<close> on a set of pairs is the ascending list in the lexicographic order.
\<close>

definition list_generated_targets :: "string list option \<Rightarrow> error + InvoiceTarget list" where
  "list_generated_targets invoices_dir =
     (case invoices_dir of
        None \<Rightarrow> Inr []
      | Some names \<Rightarrow>
          (case scan_targets (filter glob_invoice_pdf names) {} of
             Inl e \<Rightarrow> Inl e
           | Inr targets \<Rightarrow>
               Inr (map (\<lambda>(y, m). \<lparr>month = m, year = y\<rparr>) (sorted_list_of_set targets))))"

text \<open>The loop of \<^verbatim>\<open>_max_invoice_number_from_pdfs\<close> (lines 148-153).\<close>

fun scan_max :: "string list \<Rightarrow> int \<Rightarrow> error + int" where
  "scan_max [] max_n = Inr max_n"
| "scan_max (p # ps) max_n =
     (case parse_invoice_filename p of
        Inl e \<Rightarrow> Inl e
      | Inr (y_opt, m_opt, n_opt) \<Rightarrow>
          (case n_opt of
             None \<Rightarrow> scan_max ps max_n
           | Some n \<Rightarrow> if n > max_n then scan_max ps n else scan_max ps max_n))"

text \<open>\<^verbatim>\<open>_max_invoice_number_from_pdfs\<close> (lines 143-154).\<close>

definition max_invoice_number_from_pdfs :: "string list option \<Rightarrow> error + int" where
  "max_invoice_number_from_pdfs invoices_dir =
     (case invoices_dir of
        None \<Rightarrow> Inr 0
      | Some names \<Rightarrow> scan_max (filter glob_invoice_pdf names) 0)"

text \<open>
  \<^verbatim>\<open>_read_last_invoice_number\<close> (lines 89-98). The counter file is \<open>None\<close> when it does
  not exist and otherwise its decoded text.
\<close>

definition read_last_invoice_number :: "string option \<Rightarrow> error + int" where
  "read_last_invoice_number file =
     (case file of
        None \<Rightarrow> Inr 0
      | Some content \<Rightarrow>
          (let raw = py_strip content in
           if raw = [] then Inr 0
           else (case py_int raw of
                   Some v \<Rightarrow> Inr v
                 | None \<Rightarrow> Inl (InvalidCounterContent raw))))"

text \<open>
  \<^verbatim>\<open>_write_last_invoice_number\<close> (lines 101-102): the file after the call, whatever it
  was before.
\<close>

definition write_last_invoice_number :: "string option \<Rightarrow> int \<Rightarrow> string option" where
  "write_last_invoice_number file v = Some (py_str_int v @ [newline])"

text \<open>
  Lines 268-271 of \<^verbatim>\<open>main\<close>: the next sequence number from the counter file and the
  invoices directory.
\<close>

definition next_number :: "string option \<Rightarrow> string list option \<Rightarrow> error + int" where
  "next_number counter_file invoices_dir =
     (case read_last_invoice_number counter_file of
        Inl e \<Rightarrow> Inl e
      | Inr last_from_file \<Rightarrow>
          (case max_invoice_number_from_pdfs invoices_dir of
             Inl e \<Rightarrow> Inl e
           | Inr last_from_pdfs \<Rightarrow> Inr (max last_from_file last_from_pdfs + 1)))"

section \<open>The interactive prompt, the tool check and the configuration\<close>

text \<open>Lines 184-189 of \<^verbatim>\<open>_prompt_target\<close>: the range checks, then the target.\<close>

definition check_target :: "int \<Rightarrow> int \<Rightarrow> error + InvoiceTarget" where
  "check_target m y =
     (if \<not> (1 \<le> m \<and> m \<le> 12) then Inl MonthOutOfRange
      else if \<not> (1900 \<le> y \<and> y \<le> 3000) then Inl YearLooksInvalid
      else Inr \<lparr>month = m, year = y\<rparr>)"

text \<open>
  \<^verbatim>\<open>_prompt_target\<close> (lines 163-189). The console is \<open>None\<close> at the end of the input,
  where \<^verbatim>\<open>input()\<close> raises, and otherwise the line that \<^verbatim>\<open>input()\<close> returns.
\<close>

definition prompt_target :: "int \<Rightarrow> string option \<Rightarrow> error + InvoiceTarget" where
  "prompt_target default_year console =
     (case console of
        None \<Rightarrow> Inl EndOfInput
      | Some line \<Rightarrow>
          (let raw = py_strip line in
           if raw = [] then Inl NoInputProvided
           else
             (case fullmatch_m1 raw of
                Some g \<Rightarrow>
                  (case int_of_group g of
                     Inl e \<Rightarrow> Inl e
                   | Inr m \<Rightarrow> check_target m default_year)
              | None \<Rightarrow>
                  (case fullmatch_m2 raw of
                     Some (g1, g2) \<Rightarrow>
                       (case int_of_group g1 of
                          Inl e \<Rightarrow> Inl e
                        | Inr m \<Rightarrow>
                            (case int_of_group g2 of
                               Inl e \<Rightarrow> Inl e
                             | Inr y \<Rightarrow> check_target m y))
                   | None \<Rightarrow>
                       (case fullmatch_m3 raw of
                          Some (g1, g2) \<Rightarrow>
                            (case int_of_group g1 of
                               Inl e \<Rightarrow> Inl e
                             | Inr y \<Rightarrow>
                                 (case int_of_group g2 of
                                    Inl e \<Rightarrow> Inl e
                                  | Inr m \<Rightarrow> check_target m y))
                        | None \<Rightarrow> Inl InvalidFormat)))))"

text \<open>
  \<^verbatim>\<open>_ensure_playwright_ready\<close> (lines 192-196); \<open>found name\<close> says whether
  \<^verbatim>\<open>shutil.which(name)\<close> finds the program.
\<close>

definition ensure_playwright_ready :: "(string \<Rightarrow> bool) \<Rightarrow> error + unit" where
  "ensure_playwright_ready found =
     (if \<not> found ''node'' then Inl NodeNotFound
      else if \<not> found ''python'' \<and> \<not> found ''python3'' then Inl PythonNotFound
      else Inr ())"

definition REQUIRED_ENV_KEYS :: "string list" where
  "REQUIRED_ENV_KEYS =
     [''COMPANY_NAME'', ''COMPANY_ID'', ''BILL_FROM'', ''BILL_TO'', ''SERVICE_TITLE'',
      ''SERVICE_DESC'', ''CURRENCY'', ''AMOUNT'', ''BENEFICIARY_NAME'', ''IBAN'', ''SWIFT'',
      ''BANK_NAME'', ''BANK_ADDRESS'', ''INTERMEDIARY_BANK_NAME'', ''INTERMEDIARY_BANK_SWIFT'',
      ''SUPPORT_EMAIL'']"

text \<open>
  \<^verbatim>\<open>_normalize_env_value\<close> (lines 70-71): every backslash followed by \<^verbatim>\<open>n\<close> becomes a
  line break.
\<close>

fun normalize_env_value :: "string \<Rightarrow> string" where
  "normalize_env_value (a # b # r) =
     (if a = CHR 0x5C \<and> b = CHR ''n'' then newline # normalize_env_value r
      else a # normalize_env_value (b # r))"
| "normalize_env_value s = s"

text \<open>
  \<^verbatim>\<open>_load_env\<close> (lines 74-86). The argument is what \<^verbatim>\<open>dotenv_values\<close> returned, as the
  list of its items; a dictionary is an association list that \<open>AList.update\<close> extends.
  \<open>env_of_items\<close> is the loop of lines 76-80.
\<close>

definition env_of_items :: "(string option \<times> string option) list \<Rightarrow> (string \<times> string) list" where
  "env_of_items items =
     fold (\<lambda>(k, v) env.
             (case k of
                None \<Rightarrow> env
              | Some key \<Rightarrow>
                  (case v of
                     None \<Rightarrow> env
                   | Some text \<Rightarrow> AList.update key (normalize_env_value text) env)))
       items []"

definition load_env :: "(string option \<times> string option) list \<Rightarrow> error + (string \<times> string) list" where
  "load_env items =
     (let env = env_of_items items;
          missing = filter (\<lambda>k. map_of env k = None \<or> map_of env k = Some []) REQUIRED_ENV_KEYS
      in if missing \<noteq> [] then Inl (MissingRequiredKeys missing) else Inr env)"

text \<open>\<^verbatim>\<open>_format_targets\<close> (lines 157-160).\<close>

definition format_targets :: "InvoiceTarget list \<Rightarrow> string" where
  "format_targets targets =
     (if targets = [] then ''none yet'' else join '', '' (map ym_str targets))"

section \<open>A run of the program\<close>

text \<open>
  Everything a run reads from outside: whether the two input files exist, the names in
  \<^verbatim>\<open>./invoices\<close> once \<^verbatim>\<open>mkdir\<close> has run, the console, the date, the programs on the
  path, the items of the \<^verbatim>\<open>.env\<close> file, the counter file, whether a path in
  \<^verbatim>\<open>./invoices\<close> exists, and the three collaborators: the template engine (from the
  context to the HTML text or an exception), the PDF converter (an exception, or whether
  \<^verbatim>\<open>invoice_temp.pdf\<close> exists afterwards) and \<^verbatim>\<open>shutil.move\<close> (an exception or none).
  The answers are independent of each other, so that a property of every world holds on
  every file system, also one that changes between two questions.
\<close>

record world =
  w_env_exists :: bool
  w_template_exists :: bool
  w_listing :: "string list"
  w_console :: "string option"
  w_today_year :: int
  w_found :: "string \<Rightarrow> bool"
  w_dotenv :: "(string option \<times> string option) list"
  w_counter :: "string option"
  w_output_exists :: "string \<Rightarrow> bool"
  w_render_html :: "(string \<times> string) list \<Rightarrow> error + string"
  w_html_to_pdf :: "string \<Rightarrow> error + bool"
  w_move :: "string \<Rightarrow> error option"

text \<open>The lines the program prints, by the \<^verbatim>\<open>print\<close> call that writes them.\<close>

datatype message =
    EnvFileNotFound
  | TemplateNotFound
  | AlreadyGenerated string
  | ErrorMessage error
  | WarningExists string
  | OutputAlreadyExists string
  | PdfNotGenerated
  | PdfGenerated string

text \<open>
  What a run does, in order (the two scans of \<^verbatim>\<open>./invoices\<close> and the tests for the
  two input files are not recorded): \<open>ReadConsole\<close> is the call of \<^verbatim>\<open>input()\<close>, \<open>CheckOutput\<close>
  the test \<^verbatim>\<open>pdf_out_path.exists()\<close> with its answer, \<open>MovePdf\<close> a completed
  \<^verbatim>\<open>shutil.move\<close> to the given name in \<^verbatim>\<open>./invoices\<close>, \<open>WriteCounter\<close> the call of
  \<^verbatim>\<open>_write_last_invoice_number\<close>, and \<open>RemoveTemps\<close> the \<^verbatim>\<open>finally\<close> clause.
\<close>

datatype event =
    Print message
  | MakeInvoicesDir
  | ReadConsole
  | CheckTools
  | LoadEnv
  | ReadCounter
  | CheckOutput string bool
  | RenderTemplate "(string \<times> string) list"
  | WriteTempHtml string
  | ConvertToPdf
  | MovePdf string
  | WriteCounter int
  | RemoveTemps

text \<open>\<^verbatim>\<open>main\<close> returns its exit status, or an exception leaves it.\<close>

datatype outcome = Returned int | Raised error

definition emit :: "event list \<Rightarrow> event list \<times> outcome \<Rightarrow> event list \<times> outcome" where
  "emit es r = (es @ fst r, snd r)"

text \<open>Lines 294-316 of \<^verbatim>\<open>main\<close>: the \<^verbatim>\<open>try\<close> block, each path ending in its \<^verbatim>\<open>finally\<close>.\<close>

definition render_and_store ::
  "world \<Rightarrow> (string \<times> string) list \<Rightarrow> string \<Rightarrow> int \<Rightarrow> event list \<times> outcome" where
  "render_and_store w ctx pdf_name next_no =
     emit [RenderTemplate ctx]
       (case w_render_html w ctx of
          Inl e \<Rightarrow> ([RemoveTemps], Raised e)
        | Inr html \<Rightarrow>
            emit [WriteTempHtml html, ConvertToPdf]
              (case w_html_to_pdf w html of
                 Inl e \<Rightarrow> ([RemoveTemps], Raised e)
               | Inr produced \<Rightarrow>
                   if \<not> produced then ([Print PdfNotGenerated, RemoveTemps], Returned 1)
                   else
                     (case w_move w pdf_name of
                        Some e \<Rightarrow> ([RemoveTemps], Raised e)
                      | None \<Rightarrow>
                          ([MovePdf pdf_name, WriteCounter next_no,
                            Print (PdfGenerated pdf_name), RemoveTemps], Returned 0))))"

text \<open>Lines 268-292 of \<^verbatim>\<open>main\<close>, then the \<^verbatim>\<open>try\<close> block.\<close>

definition number_and_render ::
  "world \<Rightarrow> InvoiceTarget \<Rightarrow> (string \<times> string) list \<Rightarrow> event list \<times> outcome" where
  "number_and_render w target env =
     emit [ReadCounter]
       (case next_number (w_counter w) (Some (w_listing w)) of
          Inl e \<Rightarrow> ([], Raised e)
        | Inr next_no \<Rightarrow>
            (let creation_date = year_str target @ ''-'' @ month_str target @ ''-01'';
                 due_date = year_str target @ ''-'' @ month_str target @ ''-30'';
                 ctx = AList.update ''DUE_DATE'' due_date
                         (AList.update ''CREATION_DATE'' creation_date
                           (AList.update ''INVOICE_NUMBER'' (py_str_int next_no) env));
                 pdf_name = ''Invoice_'' @ year_str target @ ''_'' @ month_str target @ ''_#''
                              @ py_str_int next_no @ ''.pdf''
             in emit [CheckOutput pdf_name (w_output_exists w pdf_name)]
                  (if w_output_exists w pdf_name
                   then ([Print (OutputAlreadyExists pdf_name)], Returned 1)
                   else render_and_store w ctx pdf_name next_no)))"

text \<open>Lines 253-266 of \<^verbatim>\<open>main\<close>: the warning, the tool check and the configuration.\<close>

definition check_and_load ::
  "world \<Rightarrow> InvoiceTarget list \<Rightarrow> InvoiceTarget \<Rightarrow> event list \<times> outcome" where
  "check_and_load w generated target =
     emit (if list_ex (\<lambda>t. year t = year target \<and> month t = month target) generated
           then [Print (WarningExists (ym_str target))] else [])
       (emit [CheckTools]
          (case ensure_playwright_ready (w_found w) of
             Inl e \<Rightarrow> ([Print (ErrorMessage e)], Returned 1)
           | Inr u \<Rightarrow>
               emit [LoadEnv]
                 (case load_env (w_dotenv w) of
                    Inl e \<Rightarrow> ([Print (ErrorMessage e)], Returned 1)
                  | Inr env \<Rightarrow> number_and_render w target env)))"

text \<open>\<^verbatim>\<open>main\<close> (lines 224-316): the events of the run and how it ends.\<close>

definition main :: "world \<Rightarrow> event list \<times> outcome" where
  "main w =
     (if \<not> w_env_exists w then ([Print EnvFileNotFound], Returned 1)
      else if \<not> w_template_exists w then ([Print TemplateNotFound], Returned 1)
      else
        emit [MakeInvoicesDir]
          (case list_generated_targets (Some (w_listing w)) of
             Inl e \<Rightarrow> ([], Raised e)
           | Inr generated \<Rightarrow>
               emit [Print (AlreadyGenerated (format_targets generated)), ReadConsole]
                 (case prompt_target (w_today_year w) (w_console w) of
                    Inl e \<Rightarrow> ([Print (ErrorMessage e)], Returned 1)
                  | Inr target \<Rightarrow> check_and_load w generated target)))"

text \<open>
  \<^verbatim>\<open>raise SystemExit(main())\<close> (lines 319-320): the status of the process. An exception
  that leaves \<^verbatim>\<open>main\<close> is not caught; the interpreter prints its traceback and ends the
  process with status 1.
\<close>

definition exit_status :: "outcome \<Rightarrow> int" where
  "exit_status r = (case r of Returned n \<Rightarrow> n | Raised e \<Rightarrow> 1)"

section \<open>The specification's notions\<close>

text \<open>
  The two filename formats as the specification writes them,
  \<^verbatim>\<open>Invoice_<YYYY>_<MM>_#<N>.pdf\<close> and \<^verbatim>\<open>Invoice_<MM>_<YYYY>_#<N>.pdf\<close>, and the
  record (year, month, sequence number) that a name in one of them stands for.
\<close>

definition digit_string :: "string \<Rightarrow> bool" where
  "digit_string s = (s \<noteq> [] \<and> list_all is_digit s)"

definition current_name :: "string \<Rightarrow> string \<Rightarrow> string \<Rightarrow> string" where
  "current_name Y M N = ''Invoice_'' @ Y @ ''_'' @ M @ ''_#'' @ N @ ''.pdf''"

definition legacy_name :: "string \<Rightarrow> string \<Rightarrow> string \<Rightarrow> string" where
  "legacy_name M Y N = ''Invoice_'' @ M @ ''_'' @ Y @ ''_#'' @ N @ ''.pdf''"

definition is_record_of :: "string \<Rightarrow> int \<times> int \<times> int \<Rightarrow> bool" where
  "is_record_of name r =
     (\<exists>Y M N. length Y = 4 \<and> list_all is_digit Y \<and> length M = 2 \<and> list_all is_digit M \<and>
        digit_string N \<and> (name = current_name Y M N \<or> name = legacy_name M Y N) \<and>
        r = (digits_val Y, digits_val M, digits_val N))"

text \<open>The records of the names in a directory, and their sequence numbers.\<close>

definition filename_records :: "string list \<Rightarrow> (int \<times> int \<times> int) set" where
  "filename_records names = {r. \<exists>name \<in> set names. is_record_of name r}"

definition seq_numbers :: "string list \<Rightarrow> int set" where
  "seq_numbers names = {n. \<exists>y m. (y, m, n) \<in> filename_records names}"

text \<open>Ascending by year, then by month.\<close>

definition year_month_less :: "InvoiceTarget \<Rightarrow> InvoiceTarget \<Rightarrow> bool" where
  "year_month_less a b = (year a < year b \<or> (year a = year b \<and> month a < month b))"

text \<open>What the parser returns on the names of a list (used in the proofs about the loops).\<close>

definition parsed_of :: "string list \<Rightarrow> (int \<times> int \<times> int) set" where
  "parsed_of names =
     {(y, m, n). \<exists>name \<in> set names. parse_invoice_filename name = Inr (Some y, Some m, Some n)}"


text \<open>
  In a list of events, every event that satisfies \<open>Q\<close> has an event that satisfies \<open>P\<close>
  somewhere before it.
\<close>

fun preceded :: "(event \<Rightarrow> bool) \<Rightarrow> (event \<Rightarrow> bool) \<Rightarrow> event list \<Rightarrow> bool" where
  "preceded P Q [] = True"
| "preceded P Q (e # es) = (\<not> Q e \<and> (P e \<or> preceded P Q es))"

text \<open>The events that render, convert, store a PDF or advance the counter.\<close>

fun produces :: "event \<Rightarrow> bool" where
  "produces (RenderTemplate c) = True"
| "produces (WriteTempHtml h) = True"
| "produces ConvertToPdf = True"
| "produces (MovePdf n) = True"
| "produces (WriteCounter n) = True"
| "produces e = False"

section \<open>Example runs\<close>

text \<open>
  A complete configuration, and the run of the specification's end-to-end example: both
  input files present, an empty invoices directory, the input \<^verbatim>\<open>3\<close> in the year 2026,
  no counter file, and collaborators that succeed.
\<close>

definition example_items :: "(string option \<times> string option) list" where
  "example_items = map (\<lambda>k. (Some k, Some ''x'')) REQUIRED_ENV_KEYS"

definition example_world :: world where
  "example_world =
     \<lparr>w_env_exists = True, w_template_exists = True, w_listing = [],
      w_console = Some ''3'', w_today_year = 2026, w_found = (\<lambda>name. True),
      w_dotenv = example_items, w_counter = None, w_output_exists = (\<lambda>name. False),
      w_render_html = (\<lambda>ctx. Inr ''<html></html>''), w_html_to_pdf = (\<lambda>html. Inr True),
      w_move = (\<lambda>name. None)\<rparr>"

text \<open>The same run with the first required key absent from the configuration.\<close>

definition missing_key_world :: world where
  "missing_key_world = example_world\<lparr>w_dotenv := tl example_items\<rparr>"

text \<open>The same run when the final filename already exists.\<close>

definition existing_output_world :: world where
  "existing_output_world = example_world\<lparr>w_output_exists := (\<lambda>name. True)\<rparr>"

text \<open>The same run with a counter file that holds \<^verbatim>\<open>abc\<close>.\<close>

definition corrupt_counter_world :: world where
  "corrupt_counter_world = example_world\<lparr>w_counter := Some ''abc''\<rparr>"

text \<open>The same run with a template engine that raises.\<close>

definition failing_render_world :: world where
  "failing_render_world = example_world\<lparr>w_render_html := (\<lambda>ctx. Inl (External ''TemplateSyntaxError''))\<rparr>"


section \<open>Digits, integers and text\<close>

lemma is_digit_cases:
  "is_digit c \<longleftrightarrow> c = CHR ''0'' \<or> c = CHR ''1'' \<or> c = CHR ''2'' \<or> c = CHR ''3'' \<or> c = CHR ''4''
     \<or> c = CHR ''5'' \<or> c = CHR ''6'' \<or> c = CHR ''7'' \<or> c = CHR ''8'' \<or> c = CHR ''9''"
  by (auto simp: is_digit_def)

lemma digit_val_range: "is_digit c \<Longrightarrow> 0 \<le> digit_val c \<and> digit_val c \<le> 9"
  by (auto simp: is_digit_cases digit_val_def)

lemma digit_char_lt10:
  assumes "d < 10"
  shows "is_digit (digit_char d)" and "digit_val (digit_char d) = int d"
proof -
  from assms have "d \<in> {0,1,2,3,4,5,6,7,8,9}" by auto
  then show "is_digit (digit_char d)" "digit_val (digit_char d) = int d"
    by (auto simp: digit_char_def is_digit_def digit_val_def)
qed

lemma digit_not_space: "is_digit c \<Longrightarrow> \<not> py_isspace c"
  by (auto simp: is_digit_cases py_isspace_def)

lemma digit_not_special: "is_digit c \<Longrightarrow> c \<noteq> CHR ''_'' \<and> c \<noteq> CHR ''-'' \<and> c \<noteq> CHR ''+'' \<and> c \<noteq> CHR ''.'' \<and> c \<noteq> newline"
  by (auto simp: is_digit_cases newline_def)

lemma str_nat_digits: "list_all is_digit (str_nat n)"
  by (induction n rule: str_nat.induct) (subst str_nat.simps, simp add: digit_char_lt10)

lemma str_nat_nonempty: "str_nat n \<noteq> []"
  by (subst str_nat.simps) simp

lemma digits_val_snoc: "digits_val (ds @ [c]) = 10 * digits_val ds + digit_val c"
  by (simp add: digits_val_def)

lemma digits_val_str_nat: "digits_val (str_nat n) = int n"
proof (induction n rule: str_nat.induct)
  case (1 n)
  show ?case
  proof (cases "n < 10")
    case True
    then show ?thesis by (subst str_nat.simps) (simp add: digits_val_def digit_char_lt10)
  next
    case False
    with 1 have "digits_val (str_nat (n div 10)) = int (n div 10)" by simp
    with False show ?thesis
      by (subst str_nat.simps) (simp add: digits_val_snoc digit_char_lt10 zdiv_int zmod_int)
  qed
qed

lemma int_body_ok_digits: "ds \<noteq> [] \<Longrightarrow> list_all is_digit ds \<Longrightarrow> int_body_ok ds"
  by (induction ds rule: int_body_ok.induct) (auto dest: digit_not_special)

lemma filter_us_digits: "list_all is_digit ds \<Longrightarrow> filter (\<lambda>x. x \<noteq> CHR ''_'') ds = ds"
  by (induction ds) (auto dest: digit_not_special)

lemma py_int_digits: "ds \<noteq> [] \<Longrightarrow> list_all is_digit ds \<Longrightarrow> py_int ds = Some (digits_val ds)"
  by (cases ds) (auto simp: py_int_def int_body_ok_digits filter_us_digits dest: digit_not_special)

lemma digits_val_nonneg: "list_all is_digit ds \<Longrightarrow> 0 \<le> digits_val ds"
proof (induction ds rule: rev_induct)
  case Nil
  then show ?case by (simp add: digits_val_def)
next
  case (snoc c ds)
  then show ?case using digit_val_range[of c] by (simp add: digits_val_snoc)
qed

section \<open>What the patterns match\<close>

lemma strip_prefix_iff: "strip_prefix p s = Some r \<longleftrightarrow> s = p @ r"
  by (induction p s rule: strip_prefix.induct) auto

lemma strip_prefix_append: "strip_prefix p (p @ r) = Some r"
  by (simp add: strip_prefix_iff)

lemma take_digits_iff:
  "take_digits n s = Some (g, r) \<longleftrightarrow> length g = n \<and> list_all is_digit g \<and> s = g @ r"
  by (auto simp: take_digits_def)

lemma take_digits_append:
  "length g = n \<Longrightarrow> list_all is_digit g \<Longrightarrow> take_digits n (g @ r) = Some (g, r)"
  by (simp add: take_digits_iff)

lemma takeWhile_digits_dot:
  "list_all is_digit g \<Longrightarrow> \<not> is_digit c \<Longrightarrow> takeWhile is_digit (g @ c # r) = g"
  by (induction g) auto

lemma dropWhile_digits_dot:
  "list_all is_digit g \<Longrightarrow> \<not> is_digit c \<Longrightarrow> dropWhile is_digit (g @ c # r) = c # r"
  by (induction g) auto

lemma not_digit_dot: "\<not> is_digit CHR ''.''" "\<not> is_digit CHR ''_''" "\<not> is_digit CHR ''/''" "\<not> is_digit CHR ''-''"
  by (simp_all add: is_digit_def)

lemma number_and_suffix_iff:
  "number_and_suffix r = Some g \<longleftrightarrow>
     digit_string g \<and> (r = g @ ''.pdf'' \<or> r = g @ ''.pdf'' @ [newline])"
proof
  assume a: "number_and_suffix r = Some g"
  then have g: "g = takeWhile is_digit r" and ne: "g \<noteq> []"
    by (auto simp: number_and_suffix_def Let_def split: if_splits option.splits)
  from a obtain rest where "strip_prefix ''.pdf'' (dropWhile is_digit r) = Some rest" "at_dollar rest"
    by (auto simp: number_and_suffix_def Let_def split: if_splits option.splits)
  then have "dropWhile is_digit r = ''.pdf'' @ rest" "rest = [] \<or> rest = [newline]"
    by (simp_all add: strip_prefix_iff at_dollar_def)
  moreover have "r = takeWhile is_digit r @ dropWhile is_digit r" by simp
  moreover have "list_all is_digit g" unfolding g by (simp add: list_all_iff) (meson set_takeWhileD)
  ultimately show "digit_string g \<and> (r = g @ ''.pdf'' \<or> r = g @ ''.pdf'' @ [newline])"
    using g ne unfolding digit_string_def by (metis append_Nil2)
next
  assume "digit_string g \<and> (r = g @ ''.pdf'' \<or> r = g @ ''.pdf'' @ [newline])"
  then show "number_and_suffix r = Some g"
    by (auto simp: number_and_suffix_def digit_string_def takeWhile_digits_dot dropWhile_digits_dot
        not_digit_dot at_dollar_def)
qed

lemma number_and_suffix_pdf:
  "digit_string g \<Longrightarrow> number_and_suffix (g @ ''.pdf'') = Some g"
  "digit_string g \<Longrightarrow> number_and_suffix (g @ ''.pdf'' @ [newline]) = Some g"
  "digit_string g \<Longrightarrow> number_and_suffix (g @ CHR ''.'' # CHR ''p'' # CHR ''d'' # CHR ''f'' # [newline]) = Some g"
  by (simp_all add: number_and_suffix_iff)

lemma pattern_new_D:
  assumes "pattern_new name = Some (g1, g2, g3)"
  shows "length g1 = 4 \<and> list_all is_digit g1 \<and> length g2 = 2 \<and> list_all is_digit g2 \<and> digit_string g3 \<and>
     (name = current_name g1 g2 g3 \<or> name = current_name g1 g2 g3 @ [newline])"
proof -
  from assms obtain r1 r2 r3 r4 r5 where
    "strip_prefix ''Invoice_'' name = Some r1" "take_digits 4 r1 = Some (g1, r2)"
    "strip_prefix ''_'' r2 = Some r3" "take_digits 2 r3 = Some (g2, r4)"
    "strip_prefix ''_#'' r4 = Some r5" "number_and_suffix r5 = Some g3"
    unfolding pattern_new_def by (auto split: option.splits)
  then have "name = ''Invoice_'' @ r1" "length g1 = 4" "list_all is_digit g1" "r1 = g1 @ r2"
    "r2 = ''_'' @ r3" "length g2 = 2" "list_all is_digit g2" "r3 = g2 @ r4" "r4 = ''_#'' @ r5"
    "digit_string g3" "r5 = g3 @ ''.pdf'' \<or> r5 = g3 @ ''.pdf'' @ [newline]"
    unfolding strip_prefix_iff take_digits_iff number_and_suffix_iff by blast+
  then show ?thesis unfolding current_name_def by auto
qed

lemma pattern_new_I:
  assumes "length g1 = 4" "list_all is_digit g1" "length g2 = 2" "list_all is_digit g2" "digit_string g3"
    "name = current_name g1 g2 g3 \<or> name = current_name g1 g2 g3 @ [newline]"
  shows "pattern_new name = Some (g1, g2, g3)"
  using assms unfolding pattern_new_def current_name_def
  by (auto simp: take_digits_append number_and_suffix_pdf)

lemma pattern_new_iff:
  "pattern_new name = Some (g1, g2, g3) \<longleftrightarrow>
     length g1 = 4 \<and> list_all is_digit g1 \<and> length g2 = 2 \<and> list_all is_digit g2 \<and> digit_string g3 \<and>
     (name = current_name g1 g2 g3 \<or> name = current_name g1 g2 g3 @ [newline])"
  using pattern_new_D pattern_new_I by blast

lemma pattern_old_D:
  assumes "pattern_old name = Some (g1, g2, g3)"
  shows "length g1 = 2 \<and> list_all is_digit g1 \<and> length g2 = 4 \<and> list_all is_digit g2 \<and> digit_string g3 \<and>
     (name = legacy_name g1 g2 g3 \<or> name = legacy_name g1 g2 g3 @ [newline])"
proof -
  from assms obtain r1 r2 r3 r4 r5 where
    "strip_prefix ''Invoice_'' name = Some r1" "take_digits 2 r1 = Some (g1, r2)"
    "strip_prefix ''_'' r2 = Some r3" "take_digits 4 r3 = Some (g2, r4)"
    "strip_prefix ''_#'' r4 = Some r5" "number_and_suffix r5 = Some g3"
    unfolding pattern_old_def by (auto split: option.splits)
  then have "name = ''Invoice_'' @ r1" "length g1 = 2" "list_all is_digit g1" "r1 = g1 @ r2"
    "r2 = ''_'' @ r3" "length g2 = 4" "list_all is_digit g2" "r3 = g2 @ r4" "r4 = ''_#'' @ r5"
    "digit_string g3" "r5 = g3 @ ''.pdf'' \<or> r5 = g3 @ ''.pdf'' @ [newline]"
    unfolding strip_prefix_iff take_digits_iff number_and_suffix_iff by blast+
  then show ?thesis unfolding legacy_name_def by auto
qed

lemma pattern_old_I:
  assumes "length g1 = 2" "list_all is_digit g1" "length g2 = 4" "list_all is_digit g2" "digit_string g3"
    "name = legacy_name g1 g2 g3 \<or> name = legacy_name g1 g2 g3 @ [newline]"
  shows "pattern_old name = Some (g1, g2, g3)"
  using assms unfolding pattern_old_def legacy_name_def
  by (auto simp: take_digits_append number_and_suffix_pdf)

lemma pattern_old_iff:
  "pattern_old name = Some (g1, g2, g3) \<longleftrightarrow>
     length g1 = 2 \<and> list_all is_digit g1 \<and> length g2 = 4 \<and> list_all is_digit g2 \<and> digit_string g3 \<and>
     (name = legacy_name g1 g2 g3 \<or> name = legacy_name g1 g2 g3 @ [newline])"
  using pattern_old_D pattern_old_I by blast

section \<open>The filename parser\<close>

lemma int_of_group_digits:
  "ds \<noteq> [] \<Longrightarrow> list_all is_digit ds \<Longrightarrow> int_of_group ds = Inr (digits_val ds)"
  by (simp add: int_of_group_def py_int_digits)

lemma len_digits_nonempty: "length g = 4 \<Longrightarrow> g \<noteq> []" "length g = 2 \<Longrightarrow> g \<noteq> []"
  by auto

lemma pattern_new_legacy:
  assumes "length M = 2" "list_all is_digit M"
  shows "pattern_new (legacy_name M Y N) = None" "pattern_new (legacy_name M Y N @ [newline]) = None"
proof -
  from assms(1) obtain a b where M: "M = [a, b]"
    by (metis (no_types, opaque_lifting) One_nat_def Suc_1 length_0_conv length_Suc_conv)
  show "pattern_new (legacy_name M Y N) = None" "pattern_new (legacy_name M Y N @ [newline]) = None"
    unfolding pattern_new_def legacy_name_def M
    by (simp_all add: take_digits_def not_digit_dot)
qed

lemma parse_current:
  assumes "length Y = 4" "list_all is_digit Y" "length M = 2" "list_all is_digit M" "digit_string N"
  shows "parse_invoice_filename (current_name Y M N) =
           Inr (Some (digits_val Y), Some (digits_val M), Some (digits_val N))"
    and "parse_invoice_filename (current_name Y M N @ [newline]) =
           Inr (Some (digits_val Y), Some (digits_val M), Some (digits_val N))"
proof -
  have "pattern_new (current_name Y M N) = Some (Y, M, N)"
    "pattern_new (current_name Y M N @ [newline]) = Some (Y, M, N)"
    using assms by (simp_all add: pattern_new_I)
  moreover have "int_of_group Y = Inr (digits_val Y)" "int_of_group M = Inr (digits_val M)"
    "int_of_group N = Inr (digits_val N)"
    using assms by (auto simp: int_of_group_digits digit_string_def len_digits_nonempty)
  ultimately show "parse_invoice_filename (current_name Y M N) =
           Inr (Some (digits_val Y), Some (digits_val M), Some (digits_val N))"
    "parse_invoice_filename (current_name Y M N @ [newline]) =
           Inr (Some (digits_val Y), Some (digits_val M), Some (digits_val N))"
    by (simp_all add: parse_invoice_filename_def)
qed

lemma parse_legacy:
  assumes "length Y = 4" "list_all is_digit Y" "length M = 2" "list_all is_digit M" "digit_string N"
  shows "parse_invoice_filename (legacy_name M Y N) =
           Inr (Some (digits_val Y), Some (digits_val M), Some (digits_val N))"
    and "parse_invoice_filename (legacy_name M Y N @ [newline]) =
           Inr (Some (digits_val Y), Some (digits_val M), Some (digits_val N))"
proof -
  have "pattern_old (legacy_name M Y N) = Some (M, Y, N)"
    "pattern_old (legacy_name M Y N @ [newline]) = Some (M, Y, N)"
    using assms by (simp_all add: pattern_old_I)
  moreover have "pattern_new (legacy_name M Y N) = None"
    "pattern_new (legacy_name M Y N @ [newline]) = None"
    using assms by (simp_all add: pattern_new_legacy)
  moreover have "int_of_group Y = Inr (digits_val Y)" "int_of_group M = Inr (digits_val M)"
    "int_of_group N = Inr (digits_val N)"
    using assms by (auto simp: int_of_group_digits digit_string_def len_digits_nonempty)
  ultimately show "parse_invoice_filename (legacy_name M Y N) =
           Inr (Some (digits_val Y), Some (digits_val M), Some (digits_val N))"
    "parse_invoice_filename (legacy_name M Y N @ [newline]) =
           Inr (Some (digits_val Y), Some (digits_val M), Some (digits_val N))"
    by (simp_all add: parse_invoice_filename_def)
qed

text \<open>What the parser returns, in every case.\<close>

lemma parse_cases:
  obtains (absent) "pattern_new name = None" "pattern_old name = None"
      "parse_invoice_filename name = Inr (None, None, None)"
  | (current) Y M N where "length Y = 4" "list_all is_digit Y" "length M = 2" "list_all is_digit M"
      "digit_string N" "name = current_name Y M N \<or> name = current_name Y M N @ [newline]"
      "parse_invoice_filename name = Inr (Some (digits_val Y), Some (digits_val M), Some (digits_val N))"
  | (legacy) Y M N where "length Y = 4" "list_all is_digit Y" "length M = 2" "list_all is_digit M"
      "digit_string N" "name = legacy_name M Y N \<or> name = legacy_name M Y N @ [newline]"
      "parse_invoice_filename name = Inr (Some (digits_val Y), Some (digits_val M), Some (digits_val N))"
proof (cases "pattern_new name")
  case (Some t)
  obtain Y M N where t: "t = (Y, M, N)" by (cases t)
  from Some[unfolded t] have d: "length Y = 4" "list_all is_digit Y" "length M = 2" "list_all is_digit M"
      "digit_string N" "name = current_name Y M N \<or> name = current_name Y M N @ [newline]"
    by (auto dest: pattern_new_D)
  then show ?thesis using parse_current[of Y M N] current by blast
next
  case None
  show ?thesis
  proof (cases "pattern_old name")
    case (Some t)
    obtain M Y N where t: "t = (M, Y, N)" by (cases t)
    from Some[unfolded t] have d: "length Y = 4" "list_all is_digit Y" "length M = 2" "list_all is_digit M"
      "digit_string N" "name = legacy_name M Y N \<or> name = legacy_name M Y N @ [newline]"
      by (auto dest: pattern_old_D)
    then show ?thesis using parse_legacy[of Y M N] legacy by blast
  next
    case n2: None
    with None show ?thesis using absent by (simp add: parse_invoice_filename_def)
  qed
qed

lemma glob_iff: "glob_invoice_pdf name \<longleftrightarrow> (\<exists>mid. name = ''Invoice_'' @ mid @ ''.pdf'')"
proof
  assume "glob_invoice_pdf name"
  then obtain r where r: "name = ''Invoice_'' @ r" "4 \<le> length r" "drop (length r - 4) r = ''.pdf''"
    by (auto simp: glob_invoice_pdf_def strip_prefix_iff split: option.splits)
  have "r = take (length r - 4) r @ drop (length r - 4) r" by simp
  with r show "\<exists>mid. name = ''Invoice_'' @ mid @ ''.pdf''" by metis
next
  assume "\<exists>mid. name = ''Invoice_'' @ mid @ ''.pdf''"
  then show "glob_invoice_pdf name"
    by (auto simp: glob_invoice_pdf_def)
qed

lemma glob_formats: "glob_invoice_pdf (current_name Y M N)" "glob_invoice_pdf (legacy_name M Y N)"
  unfolding glob_iff current_name_def legacy_name_def
  by (rule exI[of _ "Y @ ''_'' @ M @ ''_#'' @ N"], simp, rule exI[of _ "M @ ''_'' @ Y @ ''_#'' @ N"], simp)

lemma glob_not_newline: "\<not> glob_invoice_pdf (s @ [newline])"
proof
  assume "glob_invoice_pdf (s @ [newline])"
  then obtain mid where "s @ [newline] = ''Invoice_'' @ mid @ ''.pdf''" unfolding glob_iff by blast
  then have "last (s @ [newline]) = last (''Invoice_'' @ mid @ ''.pdf'')" by simp
  then show False by (simp add: newline_def)
qed

lemma parse_glob_iff:
  assumes "glob_invoice_pdf name"
  shows "parse_invoice_filename name = Inr (Some y, Some m, Some n) \<longleftrightarrow> is_record_of name (y, m, n)"
proof
  assume p: "parse_invoice_filename name = Inr (Some y, Some m, Some n)"
  show "is_record_of name (y, m, n)"
  proof (cases name rule: parse_cases)
    case absent
    with p show ?thesis by simp
  next
    case (current Y M N)
    with assms have "name = current_name Y M N" using glob_not_newline by auto
    with current p show ?thesis unfolding is_record_of_def by auto
  next
    case (legacy Y M N)
    with assms have "name = legacy_name M Y N" using glob_not_newline by auto
    with legacy p show ?thesis unfolding is_record_of_def by auto
  qed
next
  assume "is_record_of name (y, m, n)"
  then show "parse_invoice_filename name = Inr (Some y, Some m, Some n)"
    unfolding is_record_of_def using parse_current(1) parse_legacy(1) by auto
qed

lemma is_record_glob: "is_record_of name r \<Longrightarrow> glob_invoice_pdf name"
  unfolding is_record_of_def using glob_formats by auto

lemma parse_shape:
  "parse_invoice_filename name = Inr (None, None, None) \<or>
   (\<exists>y m n. parse_invoice_filename name = Inr (Some y, Some m, Some n))"
  by (cases name rule: parse_cases) auto

text \<open>Unfolding these evaluates the parser and the counter on a concrete text.\<close>

lemmas parse_eval = parse_invoice_filename_def pattern_new_def pattern_old_def take_digits_def
  number_and_suffix_def at_dollar_def int_of_group_def py_int_def digits_val_def digit_val_def
  is_digit_def newline_def

lemmas counter_eval = read_last_invoice_number_def py_strip_def py_isspace_def

section \<open>The two scans of the invoices directory\<close>

lemma parsed_of_Nil: "parsed_of [] = {}"
  by (simp add: parsed_of_def)

lemma parsed_of_Cons_absent:
  "parse_invoice_filename p = Inr (None, None, None) \<Longrightarrow> parsed_of (p # ps) = parsed_of ps"
  by (auto simp: parsed_of_def)

lemma parsed_of_Cons_some:
  "parse_invoice_filename p = Inr (Some y, Some m, Some n) \<Longrightarrow>
     parsed_of (p # ps) = insert (y, m, n) (parsed_of ps)"
  by (auto simp: parsed_of_def)

lemma finite_parsed_of: "finite (parsed_of names)"
proof (induction names)
  case Nil
  show ?case by (simp add: parsed_of_Nil)
next
  case (Cons p ps)
  from parse_shape[of p] show ?case
    using Cons by (auto simp: parsed_of_Cons_absent parsed_of_Cons_some)
qed

lemma parsed_of_glob: "parsed_of (filter glob_invoice_pdf names) = filename_records names"
proof -
  have "(y, m, n) \<in> parsed_of (filter glob_invoice_pdf names) \<longleftrightarrow> (y, m, n) \<in> filename_records names"
    for y m n
    unfolding parsed_of_def filename_records_def
    using parse_glob_iff is_record_glob by auto
  then show ?thesis by auto
qed

lemma finite_filename_records: "finite (filename_records names)"
  using finite_parsed_of[of "filter glob_invoice_pdf names"] by (simp add: parsed_of_glob)

lemma scan_targets_eq:
  "scan_targets names targets =
     Inr (targets \<union> {(y, m). \<exists>n. (y, m, n) \<in> parsed_of names \<and> 1 \<le> m \<and> m \<le> 12})"
proof (induction names arbitrary: targets)
  case Nil
  show ?case by (simp add: parsed_of_Nil)
next
  case (Cons p ps)
  from parse_shape[of p] show ?case
  proof
    assume a: "parse_invoice_filename p = Inr (None, None, None)"
    then show ?thesis by (simp add: Cons parsed_of_Cons_absent)
  next
    assume "\<exists>y m n. parse_invoice_filename p = Inr (Some y, Some m, Some n)"
    then obtain y m n where a: "parse_invoice_filename p = Inr (Some y, Some m, Some n)" by blast
    show ?thesis
      by (auto simp: a Cons parsed_of_Cons_some)
  qed
qed

lemma Max_insert_insert:
  "finite A \<Longrightarrow> Max (insert (a::int) (insert b A)) = Max (insert (max a b) A)"
  by (cases "A = {}") (auto simp: max.assoc)

lemma scan_max_eq:
  "scan_max names k = Inr (Max (insert k {n. \<exists>y m. (y, m, n) \<in> parsed_of names}))"
proof (induction names arbitrary: k)
  case Nil
  show ?case by (simp add: parsed_of_Nil)
next
  case (Cons p ps)
  let ?S = "\<lambda>xs. {n. \<exists>y m. (y, m, n) \<in> parsed_of xs}"
  have fin: "finite (?S ps)"
  proof -
    have "?S ps = (\<lambda>(y, m, n). n) ` parsed_of ps" by force
    then show ?thesis using finite_parsed_of by simp
  qed
  from parse_shape[of p] show ?case
  proof
    assume a: "parse_invoice_filename p = Inr (None, None, None)"
    then show ?thesis by (simp add: Cons parsed_of_Cons_absent)
  next
    assume "\<exists>y m n. parse_invoice_filename p = Inr (Some y, Some m, Some n)"
    then obtain y m n where a: "parse_invoice_filename p = Inr (Some y, Some m, Some n)" by blast
    have S: "?S (p # ps) = insert n (?S ps)"
      by (auto simp: parsed_of_Cons_some[OF a])
    have "scan_max (p # ps) k = scan_max ps (max k n)"
      by (simp add: a max_def)
    also have "\<dots> = Inr (Max (insert (max k n) (?S ps)))" by (rule Cons)
    also have "Max (insert (max k n) (?S ps)) = Max (insert k (?S (p # ps)))"
      unfolding S using Max_insert_insert[OF fin] by simp
    finally show ?thesis .
  qed
qed

lemma max_invoice_number_eq:
  "max_invoice_number_from_pdfs (Some names) = Inr (Max (insert 0 (seq_numbers names)))"
  by (simp add: max_invoice_number_from_pdfs_def scan_max_eq parsed_of_glob seq_numbers_def)

lemma finite_seq_numbers: "finite (seq_numbers names)"
proof -
  have "seq_numbers names = (\<lambda>(y, m, n). n) ` filename_records names"
    unfolding seq_numbers_def by force
  then show ?thesis using finite_filename_records by simp
qed

lemma seq_numbers_nonneg: "n \<in> seq_numbers names \<Longrightarrow> 0 \<le> n"
  by (auto simp: seq_numbers_def filename_records_def is_record_of_def digit_string_def
      intro: digits_val_nonneg)

lemma Max_seq_numbers: "seq_numbers names \<noteq> {} \<Longrightarrow> Max (insert 0 (seq_numbers names)) = Max (seq_numbers names)"
proof -
  assume ne: "seq_numbers names \<noteq> {}"
  then have "0 \<le> Max (seq_numbers names)"
    using seq_numbers_nonneg finite_seq_numbers by (meson Max_in)
  then show ?thesis using ne finite_seq_numbers by (simp add: max_def)
qed

lemma year_month_less_mk:
  "year_month_less \<lparr>month = m, year = y\<rparr> \<lparr>month = m', year = y'\<rparr> \<longleftrightarrow> (y, m) < (y', m')"
  by (auto simp: year_month_less_def less_prod_def)

lemma sorted_wrt_mk:
  "sorted_wrt (<) xs \<Longrightarrow> sorted_wrt year_month_less (map (\<lambda>(y, m). \<lparr>month = m, year = y\<rparr>) xs)"
  by (induction xs) (auto simp: year_month_less_mk)

lemma finite_targets:
  "finite {(y, m). \<exists>n. (y, m, n) \<in> filename_records names \<and> 1 \<le> m \<and> m \<le> (12::int)}"
proof -
  have "{(y, m). \<exists>n. (y, m, n) \<in> filename_records names \<and> 1 \<le> m \<and> m \<le> (12::int)}
          \<subseteq> (\<lambda>(y, m, n). (y, m)) ` filename_records names"
    by force
  then show ?thesis using finite_filename_records by (meson finite_imageI finite_subset)
qed

lemma list_generated_targets_eq:
  "list_generated_targets (Some names) =
     Inr (map (\<lambda>(y, m). \<lparr>month = m, year = y\<rparr>)
       (sorted_list_of_set {(y, m). \<exists>n. (y, m, n) \<in> filename_records names \<and> 1 \<le> m \<and> m \<le> 12}))"
  by (simp add: list_generated_targets_def scan_targets_eq parsed_of_glob)

lemma next_number_eq:
  "read_last_invoice_number counter_file = Inr c \<Longrightarrow>
     next_number counter_file (Some names) = Inr (max c (Max (insert 0 (seq_numbers names))) + 1)"
  by (simp add: next_number_def max_invoice_number_eq)

section \<open>Sequence number reconciliation\<close>

text \<open>
  Claim C1. Whenever the counter file reads as the value \<open>c\<close>, the next sequence number
  is one more than the maximum of \<open>c\<close> and the sequence numbers of the names in the
  directory that have one of the two filename formats (the scan starts from 0, which
  changes nothing when there is such a name, since sequence numbers are not negative,
  and gives \<open>max c 0 + 1\<close> when there is none). With the counter content \<^verbatim>\<open>5\<close> and a
  name carrying the number 9 the next number is 10; with no counter file and the
  numbers 2 and 4 it is 5.
\<close>

theorem next_number_reconciles:
  "(\<forall>c. read_last_invoice_number counter_file = Inr c \<longrightarrow>
      next_number counter_file (Some names) = Inr (max c (Max (insert 0 (seq_numbers names))) + 1) \<and>
      (seq_numbers names \<noteq> {} \<longrightarrow>
         next_number counter_file (Some names) = Inr (max c (Max (seq_numbers names)) + 1)) \<and>
      (seq_numbers names = {} \<longrightarrow> next_number counter_file (Some names) = Inr (max c 0 + 1))) \<and>
   next_number (Some ''5'') (Some [''Invoice_2024_01_#9.pdf'']) = Inr 10 \<and>
   next_number None (Some [''Invoice_2024_01_#2.pdf'', ''Invoice_02_2024_#4.pdf'']) = Inr 5"
proof -
  have a: "next_number counter_file (Some names) = Inr (max c (Max (insert 0 (seq_numbers names))) + 1)"
    if "read_last_invoice_number counter_file = Inr c" for c
    using that by (rule next_number_eq)
  have b: "next_number (Some ''5'') (Some [''Invoice_2024_01_#9.pdf'']) = Inr 10"
    by (simp add: next_number_def counter_eval max_invoice_number_from_pdfs_def
        glob_invoice_pdf_def parse_eval)
  have c: "next_number None (Some [''Invoice_2024_01_#2.pdf'', ''Invoice_02_2024_#4.pdf'']) = Inr 5"
    by (simp add: next_number_def counter_eval max_invoice_number_from_pdfs_def
        glob_invoice_pdf_def parse_eval)
  show ?thesis using a b c Max_seq_numbers[of names] by auto
qed

theorem next_number_reconciles_witness:
  "read_last_invoice_number (Some ''5'') = Inr 5 \<and>
   seq_numbers [''Invoice_2024_01_#9.pdf''] \<noteq> {} \<and>
   next_number (Some ''5'') (Some [''Invoice_2024_01_#9.pdf'']) =
     Inr (max 5 (Max (seq_numbers [''Invoice_2024_01_#9.pdf''])) + 1) \<and>
   seq_numbers [] = {} \<and>
   next_number (Some ''5'') (Some []) = Inr (max 5 0 + 1)"
proof -
  have r: "read_last_invoice_number (Some ''5'') = Inr 5"
    by (simp add: counter_eval py_int_def digits_val_def digit_val_def is_digit_def)
  have "parse_invoice_filename ''Invoice_2024_01_#9.pdf'' = Inr (Some 2024, Some 1, Some 9)"
    by (simp add: parse_eval)
  moreover have "glob_invoice_pdf ''Invoice_2024_01_#9.pdf''"
    by (simp add: glob_invoice_pdf_def)
  ultimately have "is_record_of ''Invoice_2024_01_#9.pdf'' (2024, 1, 9)"
    by (simp add: parse_glob_iff)
  then have "9 \<in> seq_numbers [''Invoice_2024_01_#9.pdf'']"
    unfolding seq_numbers_def filename_records_def by auto
  then have ne: "seq_numbers [''Invoice_2024_01_#9.pdf''] \<noteq> {}" by blast
  have e: "seq_numbers [] = {}"
    by (simp add: seq_numbers_def filename_records_def)
  show ?thesis
    using r ne e next_number_reconciles[of "Some ''5''" "[''Invoice_2024_01_#9.pdf'']"]
      next_number_reconciles[of "Some ''5''" "[]"]
    by blast
qed


section \<open>Discovery of the generated targets\<close>

text \<open>
  Claim C2. Discovery never fails. On an absent directory it returns the empty list. On
  a directory it returns a list without repetitions, strictly ascending by year and
  then month, whose targets are exactly the (year, month) pairs of the names that have
  one of the two filename formats and a month from 1 to 12; every other name is
  ignored. On the three names of the specification's example it returns 2024-01 and
  2025-01.
\<close>

theorem list_generated_targets_discovery:
  "list_generated_targets None = Inr [] \<and>
   (\<exists>ts. list_generated_targets (Some names) = Inr ts \<and>
      sorted_wrt year_month_less ts \<and> distinct ts \<and>
      set ts = {\<lparr>month = m, year = y\<rparr> | y m n.
                  (y, m, n) \<in> filename_records names \<and> 1 \<le> m \<and> m \<le> 12}) \<and>
   list_generated_targets
     (Some [''Invoice_2024_01_#3.pdf'', ''Invoice_01_2025_#7.pdf'', ''not_an_invoice.pdf'']) =
     Inr [\<lparr>month = 1, year = 2024\<rparr>, \<lparr>month = 1, year = 2025\<rparr>]"
proof -
  let ?S = "{(y, m). \<exists>n. (y, m, n) \<in> filename_records names \<and> 1 \<le> m \<and> m \<le> (12::int)}"
  let ?mk = "\<lambda>(y, m). \<lparr>month = m, year = y\<rparr>"
  let ?ts = "map ?mk (sorted_list_of_set ?S)"
  have fin: "finite ?S" by (rule finite_targets)
  have inj: "inj_on ?mk A" for A by (auto simp: inj_on_def)
  have a: "list_generated_targets None = Inr []"
    by (simp add: list_generated_targets_def)
  have b: "list_generated_targets (Some names) = Inr ?ts"
    by (rule list_generated_targets_eq)
  have c: "sorted_wrt year_month_less ?ts"
    by (rule sorted_wrt_mk) simp
  have d: "distinct ?ts"
    by (simp add: distinct_map inj)
  have e: "set ?ts = {\<lparr>month = m, year = y\<rparr> | y m n.
                  (y, m, n) \<in> filename_records names \<and> 1 \<le> m \<and> m \<le> 12}"
    using fin by auto
  have f: "list_generated_targets
     (Some [''Invoice_2024_01_#3.pdf'', ''Invoice_01_2025_#7.pdf'', ''not_an_invoice.pdf'']) =
     Inr [\<lparr>month = 1, year = 2024\<rparr>, \<lparr>month = 1, year = 2025\<rparr>]"
    by (simp add: list_generated_targets_def glob_invoice_pdf_def parse_eval)
  from a b c d e f show ?thesis by blast
qed

section \<open>The filename parser on the two formats\<close>



text \<open>Exactly which names the parser accepts.\<close>

lemma parse_accepts_iff:
  "parse_invoice_filename name = Inr (Some y, Some m, Some n) \<longleftrightarrow>
     is_record_of name (y, m, n) \<or> (\<exists>name'. name = name' @ [newline] \<and> is_record_of name' (y, m, n))"
proof
  assume p: "parse_invoice_filename name = Inr (Some y, Some m, Some n)"
  show "is_record_of name (y, m, n) \<or> (\<exists>name'. name = name' @ [newline] \<and> is_record_of name' (y, m, n))"
  proof (cases name rule: parse_cases)
    case absent
    with p show ?thesis by simp
  next
    case (current Y M N)
    with p have r: "is_record_of (current_name Y M N) (y, m, n)"
      unfolding is_record_of_def by auto
    from current(6) show ?thesis using r by auto
  next
    case (legacy Y M N)
    with p have r: "is_record_of (legacy_name M Y N) (y, m, n)"
      unfolding is_record_of_def by auto
    from legacy(6) show ?thesis using r by auto
  qed
next
  assume "is_record_of name (y, m, n) \<or> (\<exists>name'. name = name' @ [newline] \<and> is_record_of name' (y, m, n))"
  then show "parse_invoice_filename name = Inr (Some y, Some m, Some n)"
    unfolding is_record_of_def using parse_current parse_legacy by auto
qed

section \<open>The persisted counter\<close>

lemma py_strip_line:
  assumes "s \<noteq> []" "\<not> py_isspace (hd s)" "\<not> py_isspace (last s)"
  shows "py_strip (s @ [newline]) = s"
proof -
  from assms obtain c r where s: "s = c # r" by (cases s) auto
  have 1: "dropWhile py_isspace (s @ [newline]) = s @ [newline]"
    using assms(2) by (simp add: s)
  have nl: "py_isspace newline" by (simp add: py_isspace_def newline_def)
  from assms(1) obtain r' l where s': "s = r' @ [l]" by (metis rev_exhaust)
  with assms(3) have l: "\<not> py_isspace l" by simp
  have "rev (s @ [newline]) = newline # l # rev r'" by (simp add: s')
  then have "dropWhile py_isspace (rev (s @ [newline])) = l # rev r'"
    using nl l by simp
  then show ?thesis unfolding py_strip_def 1 by (simp add: s')
qed

lemma str_nat_last_digit: "is_digit (last (str_nat n))"
  using str_nat_digits[of n] str_nat_nonempty[of n] by (simp add: list_all_iff)

lemma str_nat_hd_digit: "is_digit (hd (str_nat n))"
  using str_nat_digits[of n] str_nat_nonempty[of n] by (simp add: list_all_iff)

lemma minus_not_space: "\<not> py_isspace CHR ''-''"
  by (simp add: py_isspace_def)

lemma py_strip_str_int: "py_strip (py_str_int n @ [newline]) = py_str_int n"
proof (rule py_strip_line)
  show "py_str_int n \<noteq> []" by (simp add: py_str_int_def str_nat_nonempty)
  show "\<not> py_isspace (hd (py_str_int n))"
    using digit_not_space[OF str_nat_hd_digit] by (simp add: py_str_int_def minus_not_space)
  show "\<not> py_isspace (last (py_str_int n))"
    using digit_not_space[OF str_nat_last_digit] by (simp add: py_str_int_def str_nat_nonempty)
qed

lemma py_int_str_int: "py_int (py_str_int n) = Some n"
proof (cases "n < 0")
  case True
  have "int_body_ok (str_nat (nat (- n)))"
    by (simp add: int_body_ok_digits str_nat_nonempty str_nat_digits)
  then show ?thesis using True
    by (simp add: py_int_def py_str_int_def filter_us_digits str_nat_digits digits_val_str_nat)
next
  case False
  then show ?thesis
    by (simp add: py_str_int_def py_int_digits str_nat_nonempty str_nat_digits digits_val_str_nat)
qed

text \<open>
  Claim C10. Writing a number to the counter file and reading the file back gives the
  number, for every integer and so for every non-negative one.
\<close>

theorem counter_round_trip:
  "read_last_invoice_number (write_last_invoice_number file n) = Inr n"
proof -
  have "py_str_int n \<noteq> []" by (simp add: py_str_int_def str_nat_nonempty)
  then show ?thesis
    by (simp add: read_last_invoice_number_def write_last_invoice_number_def py_strip_str_int
        py_int_str_int Let_def)
qed

lemma py_int_foreign_char:
  assumes "c \<in> set s" "\<not> is_digit c" "c \<noteq> CHR ''_''" "c \<noteq> CHR ''+''" "c \<noteq> CHR ''-''"
  shows "py_int s = None"
proof -
  have body: "c \<in> set b \<Longrightarrow> \<not> int_body_ok b" for b
    using assms(2,3) by (induction b rule: int_body_ok.induct) (auto split: if_splits)
  show ?thesis
  proof (cases s)
    case Nil
    then show ?thesis by (simp add: py_int_def)
  next
    case (Cons a r)
    with assms(1,4,5) body[of r] body[of s] show ?thesis
      by (auto simp: py_int_def)
  qed
qed

text \<open>
  Claim C4, as stated, fails: a counter file that is present and holds no integer, being
  empty or holding only whitespace, is read as 0 and raises nothing.
\<close>

theorem read_counter_empty_counterexample:
  "py_int '''' = None \<and> read_last_invoice_number (Some '''') = Inr 0 \<and>
   py_int (py_strip [newline]) = None \<and> read_last_invoice_number (Some [newline]) = Inr 0"
  by (simp add: counter_eval py_int_def newline_def)

text \<open>
  Claim C4, amended. An absent counter file reads as 0, and so does a file whose content
  is empty once stripped. A file whose stripped content is not empty and is not an
  integer literal for \<^verbatim>\<open>int()\<close> makes the read raise, with that content in the message;
  a file whose stripped content is an integer literal reads as its value.
\<close>

theorem read_counter_cases:
  "read_last_invoice_number None = Inr 0 \<and>
   (py_strip content = [] \<longrightarrow> read_last_invoice_number (Some content) = Inr 0) \<and>
   (py_strip content \<noteq> [] \<and> py_int (py_strip content) = None \<longrightarrow>
      read_last_invoice_number (Some content) = Inl (InvalidCounterContent (py_strip content))) \<and>
   (\<forall>v. py_int (py_strip content) = Some v \<longrightarrow> read_last_invoice_number (Some content) = Inr v)"
proof -
  have "py_int [] = None" by (simp add: py_int_def)
  then show ?thesis by (simp add: read_last_invoice_number_def Let_def)
qed

theorem read_counter_cases_witness:
  "py_strip ''  '' = [] \<and> read_last_invoice_number (Some ''  '') = Inr 0 \<and>
   py_strip ''abc'' \<noteq> [] \<and> py_int (py_strip ''abc'') = None \<and>
   read_last_invoice_number (Some ''abc'') = Inl (InvalidCounterContent ''abc'') \<and>
   py_int (py_strip ''7'') = Some 7 \<and> read_last_invoice_number (Some ''7'') = Inr 7"
proof -
  have a: "py_strip ''  '' = []" by (simp add: py_strip_def py_isspace_def)
  have b: "py_strip ''abc'' = ''abc''" by (simp add: py_strip_def py_isspace_def)
  have c: "py_int ''abc'' = None" by (simp add: py_int_def is_digit_def)
  have d: "py_strip ''7'' = ''7''" by (simp add: py_strip_def py_isspace_def)
  have e: "py_int ''7'' = Some 7" by (simp add: py_int_def is_digit_def digits_val_def digit_val_def)
  show ?thesis
    using read_counter_cases[of "''  ''"] read_counter_cases[of "''abc''"]
      read_counter_cases[of "''7''"] a b c d e
    by simp
qed

section \<open>The ranges of the targets\<close>

lemma digits_val_bound: "list_all is_digit ds \<Longrightarrow> digits_val ds < 10 ^ length ds"
proof (induction ds rule: rev_induct)
  case Nil
  then show ?case by (simp add: digits_val_def)
next
  case (snoc c ds)
  then have "digits_val ds < 10 ^ length ds" "digit_val c \<le> 9"
    using digit_val_range[of c] by simp_all
  then show ?case by (simp add: digits_val_snoc)
qed

lemma record_year_range: "is_record_of name (y, m, n) \<Longrightarrow> 0 \<le> y \<and> y \<le> 9999"
  unfolding is_record_of_def using digits_val_bound digits_val_nonneg by fastforce

lemma check_target_range:
  "check_target m y = Inr t \<Longrightarrow>
     1 \<le> month t \<and> month t \<le> 12 \<and> 1900 \<le> year t \<and> year t \<le> 3000"
  by (auto simp: check_target_def split: if_splits)

lemma prompt_target_range:
  "prompt_target dy console = Inr t \<Longrightarrow>
     1 \<le> month t \<and> month t \<le> 12 \<and> 1900 \<le> year t \<and> year t \<le> 3000"
  unfolding prompt_target_def Let_def
  by (auto split: option.splits if_splits sum.splits prod.splits dest!: check_target_range)

text \<open>
  Claim C9, as stated, fails: discovery checks the month of a name and not its year, so
  a name with the year 0001 gives a target outside 1900 to 3000.
\<close>

theorem discovery_year_counterexample:
  "list_generated_targets (Some [''Invoice_0001_01_#1.pdf'']) = Inr [\<lparr>month = 1, year = 1\<rparr>] \<and>
   \<not> (1900 \<le> year \<lparr>month = 1, year = 1\<rparr>)"
  by (simp add: list_generated_targets_def glob_invoice_pdf_def parse_eval)

text \<open>
  Claim C9, amended. Every target the prompt returns has a month from 1 to 12 and a
  year from 1900 to 3000; every target discovery returns has a month from 1 to 12 and
  a year from 0 to 9999.
\<close>

theorem targets_in_range:
  "(\<forall>t. prompt_target default_year console = Inr t \<longrightarrow>
      1 \<le> month t \<and> month t \<le> 12 \<and> 1900 \<le> year t \<and> year t \<le> 3000) \<and>
   (\<forall>ts. list_generated_targets invoices_dir = Inr ts \<longrightarrow>
      (\<forall>t \<in> set ts. 1 \<le> month t \<and> month t \<le> 12 \<and> 0 \<le> year t \<and> year t \<le> 9999))"
proof -
  have a: "1 \<le> month t \<and> month t \<le> 12 \<and> 1900 \<le> year t \<and> year t \<le> 3000"
    if "prompt_target default_year console = Inr t" for t
    using that by (rule prompt_target_range)
  have b: "1 \<le> month t \<and> month t \<le> 12 \<and> 0 \<le> year t \<and> year t \<le> 9999"
    if ts: "list_generated_targets invoices_dir = Inr ts" and t: "t \<in> set ts" for ts t
  proof (cases invoices_dir)
    case None
    with ts t show ?thesis by (simp add: list_generated_targets_def)
  next
    case (Some names)
    let ?S = "{(y, m). \<exists>n. (y, m, n) \<in> filename_records names \<and> 1 \<le> m \<and> m \<le> (12::int)}"
    from ts Some have "ts = map (\<lambda>(y, m). \<lparr>month = m, year = y\<rparr>) (sorted_list_of_set ?S)"
      by (simp add: list_generated_targets_eq)
    with t finite_targets[of names] obtain y m n where
      "t = \<lparr>month = m, year = y\<rparr>" "(y, m, n) \<in> filename_records names" "1 \<le> m" "m \<le> 12"
      by auto
    then show ?thesis using record_year_range by (auto simp: filename_records_def)
  qed
  from a b show ?thesis by blast
qed

theorem targets_in_range_witness:
  "prompt_target 2026 (Some ''3'') = Inr \<lparr>month = 3, year = 2026\<rparr> \<and>
   list_generated_targets (Some [''Invoice_0001_01_#1.pdf'']) = Inr [\<lparr>month = 1, year = 1\<rparr>] \<and>
   (1::int) \<le> 3 \<and> (3::int) \<le> 12 \<and> (1900::int) \<le> 2026 \<and> (2026::int) \<le> 3000 \<and>
   (1::int) \<le> 1 \<and> (1::int) \<le> 12 \<and> (0::int) \<le> 1 \<and> (1::int) \<le> 9999"
proof -
  have p: "prompt_target 2026 (Some ''3'') = Inr \<lparr>month = 3, year = 2026\<rparr>"
    by (simp add: prompt_target_def py_strip_def py_isspace_def fullmatch_m1_def check_target_def
        parse_eval)
  have l: "list_generated_targets (Some [''Invoice_0001_01_#1.pdf'']) = Inr [\<lparr>month = 1, year = 1\<rparr>]"
    by (simp add: list_generated_targets_def glob_invoice_pdf_def parse_eval)
  from targets_in_range[of 2026 "Some ''3''" "Some [''Invoice_0001_01_#1.pdf'']"] p l
  show ?thesis by simp
qed

section \<open>Runs of the program\<close>

lemmas main_defs = main_def check_and_load_def number_and_render_def render_and_store_def emit_def

lemma preceded_D:
  "preceded P Q tr \<Longrightarrow> tr = pre @ e # post \<Longrightarrow> Q e \<Longrightarrow> \<exists>p \<in> set pre. P p"
proof (induction tr arbitrary: pre)
  case Nil
  then show ?case by simp
next
  case (Cons a tr)
  show ?case
  proof (cases pre)
    case Nil
    with Cons show ?thesis by auto
  next
    case (Cons b pre')
    with Cons.prems Cons.IH[of pre'] show ?thesis by auto
  qed
qed

lemma main_move_before_counter:
  "preceded (\<lambda>e. \<exists>t. e = MovePdf (''Invoice_'' @ year_str t @ ''_'' @ month_str t @ ''_#'' @ py_str_int n @ ''.pdf''))
      (\<lambda>e. e = WriteCounter n) (fst (main w))"
  unfolding main_defs
  by (auto simp: Let_def split: sum.splits option.splits)

lemma main_check_before_render:
  "preceded (\<lambda>e. \<exists>name. e = CheckOutput name False) (\<lambda>e. \<exists>c. e = RenderTemplate c) (fst (main w))"
  unfolding main_defs
  by (auto simp: Let_def split: sum.splits option.splits)

lemma main_check_before_move:
  "preceded (\<lambda>e. e = CheckOutput name False) (\<lambda>e. e = MovePdf name) (fst (main w))"
  unfolding main_defs
  by (auto simp: Let_def split: sum.splits option.splits)

lemma main_exists_aborts:
  "CheckOutput name True \<in> set (fst (main w)) \<Longrightarrow>
     snd (main w) = Returned 1 \<and> (\<forall>e \<in> set (fst (main w)). \<not> produces e)"
  unfolding main_defs
  by (auto simp: Let_def split: sum.splits option.splits if_splits)

text \<open>The example runs, evaluated.\<close>

lemma example_run:
  "main example_world =
    ([MakeInvoicesDir, Print (AlreadyGenerated ''none yet''), ReadConsole, CheckTools, LoadEnv,
      ReadCounter, CheckOutput ''Invoice_2026_03_#1.pdf'' False,
      RenderTemplate
       (map (\<lambda>k. (k, ''x'')) REQUIRED_ENV_KEYS @
        [(''INVOICE_NUMBER'', ''1''), (''CREATION_DATE'', ''2026-03-01''),
         (''DUE_DATE'', ''2026-03-30'')]),
      WriteTempHtml ''<html></html>'', ConvertToPdf, MovePdf ''Invoice_2026_03_#1.pdf'',
      WriteCounter 1, Print (PdfGenerated ''Invoice_2026_03_#1.pdf''), RemoveTemps],
     Returned 0)"
  by code_simp

lemma existing_output_run:
  "main existing_output_world =
    ([MakeInvoicesDir, Print (AlreadyGenerated ''none yet''), ReadConsole, CheckTools, LoadEnv,
      ReadCounter, CheckOutput ''Invoice_2026_03_#1.pdf'' True,
      Print (OutputAlreadyExists ''Invoice_2026_03_#1.pdf'')],
     Returned 1)"
  by code_simp

lemma missing_key_run:
  "main missing_key_world =
    ([MakeInvoicesDir, Print (AlreadyGenerated ''none yet''), ReadConsole, CheckTools, LoadEnv,
      Print (ErrorMessage (MissingRequiredKeys [''COMPANY_NAME'']))],
     Returned 1)"
  by code_simp

lemma missing_key_lookup:
  "map_of (env_of_items (w_dotenv missing_key_world)) ''COMPANY_NAME'' = None"
  by code_simp

lemma failing_render_run:
  "main failing_render_world =
     ([MakeInvoicesDir, Print (AlreadyGenerated ''none yet''), ReadConsole, CheckTools, LoadEnv,
       ReadCounter, CheckOutput ''Invoice_2026_03_#1.pdf'' False,
       RenderTemplate
        (map (\<lambda>k. (k, ''x'')) REQUIRED_ENV_KEYS @
         [(''INVOICE_NUMBER'', ''1''), (''CREATION_DATE'', ''2026-03-01''),
          (''DUE_DATE'', ''2026-03-30'')]),
       RemoveTemps],
      Raised (External ''TemplateSyntaxError''))"
  by code_simp

section \<open>The order of the final steps\<close>

text \<open>
  Claim C6. In every run, a write of the counter comes after a completed move of the PDF
  to the final filename that carries the written number; a move to a filename, and
  every rendering, comes after the test that this filename does not exist yet; and a
  run in which the test finds the filename ends with status 1 without rendering,
  converting, moving or writing the counter.
\<close>

theorem counter_only_after_move:
  "(\<forall>pre n post. fst (main w) = pre @ WriteCounter n # post \<longrightarrow>
      (\<exists>t. MovePdf (''Invoice_'' @ year_str t @ ''_'' @ month_str t @ ''_#'' @ py_str_int n @ ''.pdf'')
              \<in> set pre)) \<and>
   (\<forall>pre name post. fst (main w) = pre @ MovePdf name # post \<longrightarrow> CheckOutput name False \<in> set pre) \<and>
   (\<forall>pre ctx post. fst (main w) = pre @ RenderTemplate ctx # post \<longrightarrow>
      (\<exists>name. CheckOutput name False \<in> set pre)) \<and>
   (\<forall>name. CheckOutput name True \<in> set (fst (main w)) \<longrightarrow>
      snd (main w) = Returned 1 \<and> (\<forall>e \<in> set (fst (main w)). \<not> produces e))"
proof -
  have a: "\<exists>t. MovePdf (''Invoice_'' @ year_str t @ ''_'' @ month_str t @ ''_#'' @ py_str_int n @ ''.pdf'')
              \<in> set pre"
    if "fst (main w) = pre @ WriteCounter n # post" for pre n post
    using preceded_D[OF main_move_before_counter[of n w] that] by auto
  have b: "CheckOutput name False \<in> set pre"
    if "fst (main w) = pre @ MovePdf name # post" for pre name post
    using preceded_D[OF main_check_before_move[of name w] that] by auto
  have c: "\<exists>name. CheckOutput name False \<in> set pre"
    if "fst (main w) = pre @ RenderTemplate ctx # post" for pre ctx post
    using preceded_D[OF main_check_before_render[of w] that] by auto
  from a b c main_exists_aborts show ?thesis by blast
qed

theorem counter_only_after_move_witness:
  "(\<exists>pre post. fst (main example_world) = pre @ WriteCounter 1 # post \<and>
      (\<exists>t. MovePdf (''Invoice_'' @ year_str t @ ''_'' @ month_str t @ ''_#'' @ py_str_int 1 @ ''.pdf'')
              \<in> set pre)) \<and>
   (\<exists>pre post. fst (main example_world) = pre @ MovePdf ''Invoice_2026_03_#1.pdf'' # post \<and>
      CheckOutput ''Invoice_2026_03_#1.pdf'' False \<in> set pre) \<and>
   (\<exists>pre ctx post. fst (main example_world) = pre @ RenderTemplate ctx # post \<and>
      (\<exists>name. CheckOutput name False \<in> set pre)) \<and>
   CheckOutput ''Invoice_2026_03_#1.pdf'' True \<in> set (fst (main existing_output_world)) \<and>
   snd (main existing_output_world) = Returned 1 \<and>
   list_all (\<lambda>e. \<not> produces e) (fst (main existing_output_world))"
proof -
  let ?ctx = "map (\<lambda>k. (k, ''x'')) REQUIRED_ENV_KEYS @
        [(''INVOICE_NUMBER'', ''1''), (''CREATION_DATE'', ''2026-03-01''),
         (''DUE_DATE'', ''2026-03-30'')]"
  let ?p1 = "[MakeInvoicesDir, Print (AlreadyGenerated ''none yet''), ReadConsole, CheckTools,
      LoadEnv, ReadCounter, CheckOutput ''Invoice_2026_03_#1.pdf'' False]"
  let ?p2 = "?p1 @ [RenderTemplate ?ctx, WriteTempHtml ''<html></html>'', ConvertToPdf]"
  let ?p3 = "?p2 @ [MovePdf ''Invoice_2026_03_#1.pdf'']"
  let ?post = "[Print (PdfGenerated ''Invoice_2026_03_#1.pdf''), RemoveTemps]"
  let ?w = "existing_output_world"
  have r1: "fst (main example_world) =
      ?p1 @ RenderTemplate ?ctx # [WriteTempHtml ''<html></html>'', ConvertToPdf,
        MovePdf ''Invoice_2026_03_#1.pdf'', WriteCounter 1] @ ?post"
    by (simp add: example_run)
  have r2: "fst (main example_world) =
      ?p2 @ MovePdf ''Invoice_2026_03_#1.pdf'' # WriteCounter 1 # ?post"
    by (simp add: example_run)
  have r3: "fst (main example_world) = ?p3 @ WriteCounter 1 # ?post"
    by (simp add: example_run)
  have x: "CheckOutput ''Invoice_2026_03_#1.pdf'' True \<in> set (fst (main ?w))"
    by (simp add: existing_output_run)
  note ordered = counter_only_after_move[of example_world]
  from ordered r3
  have a: "\<exists>t. MovePdf (''Invoice_'' @ year_str t @ ''_'' @ month_str t @ ''_#'' @ py_str_int 1 @ ''.pdf'')
              \<in> set ?p3"
    by blast
  from ordered r2 have b: "CheckOutput ''Invoice_2026_03_#1.pdf'' False \<in> set ?p2" by blast
  from ordered r1 have c: "\<exists>name. CheckOutput name False \<in> set ?p1" by blast
  from counter_only_after_move[of ?w] x
  have d: "snd (main ?w) = Returned 1 \<and> (\<forall>e \<in> set (fst (main ?w)). \<not> produces e)" by blast
  from a r3 have A: "\<exists>pre post. fst (main example_world) = pre @ WriteCounter 1 # post \<and>
      (\<exists>t. MovePdf (''Invoice_'' @ year_str t @ ''_'' @ month_str t @ ''_#'' @ py_str_int 1 @ ''.pdf'')
              \<in> set pre)" by blast
  from b r2 have B: "\<exists>pre post. fst (main example_world) = pre @ MovePdf ''Invoice_2026_03_#1.pdf'' # post \<and>
      CheckOutput ''Invoice_2026_03_#1.pdf'' False \<in> set pre" by blast
  from c r1 have C: "\<exists>pre ctx post. fst (main example_world) = pre @ RenderTemplate ctx # post \<and>
      (\<exists>name. CheckOutput name False \<in> set pre)" by blast
  from A B C d x show ?thesis by (simp add: list_all_iff)
qed


section \<open>The configuration check and the prompt\<close>

lemma discovery_total: "list_generated_targets d \<noteq> Inl e"
proof (cases d)
  case None
  then show ?thesis by (simp add: list_generated_targets_def)
next
  case (Some names)
  then show ?thesis by (simp add: list_generated_targets_eq)
qed

lemma main_before_load:
  assumes "load_env (w_dotenv w) = Inl e"
  shows "snd (main w) = Returned 1"
    and "\<forall>ev \<in> set (fst (main w)). \<not> produces ev \<and> ev \<noteq> ReadCounter"
  using assms discovery_total[of "Some (w_listing w)"]
  unfolding main_def check_and_load_def emit_def
  by (auto split: sum.splits)

lemma main_reaches_load:
  assumes "w_env_exists w" "w_template_exists w"
    "prompt_target (w_today_year w) (w_console w) = Inr t"
    "ensure_playwright_ready (w_found w) = Inr ()"
    "load_env (w_dotenv w) = Inl e"
  shows "\<exists>pre. fst (main w) = pre @ [LoadEnv, Print (ErrorMessage e)] \<and> ReadConsole \<in> set pre"
proof -
  obtain generated where g: "list_generated_targets (Some (w_listing w)) = Inr generated"
    using discovery_total[of "Some (w_listing w)"] by (cases "list_generated_targets (Some (w_listing w))") auto
  let ?warn = "if list_ex (\<lambda>x. year x = year t \<and> month x = month t) generated
           then [Print (WarningExists (ym_str t))] else []"
  let ?pre = "[MakeInvoicesDir, Print (AlreadyGenerated (format_targets generated)), ReadConsole]
      @ ?warn @ [CheckTools]"
  have "fst (main w) = ?pre @ [LoadEnv, Print (ErrorMessage e)]"
    using assms g unfolding main_def check_and_load_def emit_def by simp
  moreover have "ReadConsole \<in> set ?pre" by simp
  ultimately show ?thesis by blast
qed

lemma main_load_only_after_prompt:
  assumes "LoadEnv \<in> set (fst (main w))"
  shows "w_env_exists w \<and> w_template_exists w \<and>
     (\<exists>t. prompt_target (w_today_year w) (w_console w) = Inr t) \<and>
     ensure_playwright_ready (w_found w) = Inr ()"
  using assms unfolding main_defs
  by (auto simp: Let_def split: sum.splits option.splits if_splits)

lemma load_env_missing:
  assumes "k \<in> set REQUIRED_ENV_KEYS"
    "map_of (env_of_items items) k = None \<or> map_of (env_of_items items) k = Some []"
  shows "load_env items = Inl (MissingRequiredKeys
      (filter (\<lambda>k. map_of (env_of_items items) k = None \<or> map_of (env_of_items items) k = Some [])
         REQUIRED_ENV_KEYS))"
proof -
  from assms have "filter (\<lambda>k. map_of (env_of_items items) k = None \<or> map_of (env_of_items items) k = Some [])
         REQUIRED_ENV_KEYS \<noteq> []"
    by (auto simp: filter_empty_conv)
  then show ?thesis by (simp add: load_env_def Let_def)
qed

text \<open>
  Claim C5, as stated, fails: with a required key absent from the configuration, the
  prompt is still read, and the run fails only afterwards.
\<close>

theorem missing_key_prompt_counterexample:
  "''COMPANY_NAME'' \<in> set REQUIRED_ENV_KEYS \<and>
   map_of (env_of_items (w_dotenv missing_key_world)) ''COMPANY_NAME'' = None \<and>
   ReadConsole \<in> set (fst (main missing_key_world)) \<and>
   snd (main missing_key_world) = Returned 1"
  by (simp add: missing_key_run missing_key_lookup REQUIRED_ENV_KEYS_def)

text \<open>
  Claim C5, amended. In every run where a required configuration key is missing or
  empty, the program returns status 1 and neither reads the counter nor renders,
  converts, moves a PDF or writes the counter. The keys are checked exactly when both
  input files exist, the prompt has returned a valid target and the tool check has
  passed; the prompt has been read before that check, and the run ends right after it
  with the message that names all the missing keys.
\<close>

theorem missing_key_fails_after_prompt:
  "k \<in> set REQUIRED_ENV_KEYS \<and>
   (map_of (env_of_items (w_dotenv w)) k = None \<or> map_of (env_of_items (w_dotenv w)) k = Some [])
   \<longrightarrow>
   snd (main w) = Returned 1 \<and>
   (\<forall>ev \<in> set (fst (main w)). \<not> produces ev \<and> ev \<noteq> ReadCounter) \<and>
   (LoadEnv \<in> set (fst (main w)) \<longleftrightarrow>
      w_env_exists w \<and> w_template_exists w \<and>
      (\<exists>t. prompt_target (w_today_year w) (w_console w) = Inr t) \<and>
      ensure_playwright_ready (w_found w) = Inr ()) \<and>
   (LoadEnv \<in> set (fst (main w)) \<longrightarrow>
      (\<exists>pre. ReadConsole \<in> set pre \<and>
         fst (main w) = pre @ [LoadEnv, Print (ErrorMessage (MissingRequiredKeys
           (filter (\<lambda>k. map_of (env_of_items (w_dotenv w)) k = None \<or>
                         map_of (env_of_items (w_dotenv w)) k = Some []) REQUIRED_ENV_KEYS)))]))"
proof (intro impI)
  let ?e = "MissingRequiredKeys
           (filter (\<lambda>k. map_of (env_of_items (w_dotenv w)) k = None \<or>
                         map_of (env_of_items (w_dotenv w)) k = Some []) REQUIRED_ENV_KEYS)"
  assume "k \<in> set REQUIRED_ENV_KEYS \<and>
   (map_of (env_of_items (w_dotenv w)) k = None \<or> map_of (env_of_items (w_dotenv w)) k = Some [])"
  then have l: "load_env (w_dotenv w) = Inl ?e" using load_env_missing by blast
  have r: "LoadEnv \<in> set (fst (main w))"
    if "w_env_exists w \<and> w_template_exists w \<and>
      (\<exists>t. prompt_target (w_today_year w) (w_console w) = Inr t) \<and>
      ensure_playwright_ready (w_found w) = Inr ()"
    using that main_reaches_load[OF _ _ _ _ l] by fastforce
  have p: "\<exists>pre. ReadConsole \<in> set pre \<and> fst (main w) = pre @ [LoadEnv, Print (ErrorMessage ?e)]"
    if "LoadEnv \<in> set (fst (main w))"
    using main_load_only_after_prompt[OF that] main_reaches_load[OF _ _ _ _ l] by blast
  show "snd (main w) = Returned 1 \<and>
   (\<forall>ev \<in> set (fst (main w)). \<not> produces ev \<and> ev \<noteq> ReadCounter) \<and>
   (LoadEnv \<in> set (fst (main w)) \<longleftrightarrow>
      w_env_exists w \<and> w_template_exists w \<and>
      (\<exists>t. prompt_target (w_today_year w) (w_console w) = Inr t) \<and>
      ensure_playwright_ready (w_found w) = Inr ()) \<and>
   (LoadEnv \<in> set (fst (main w)) \<longrightarrow>
      (\<exists>pre. ReadConsole \<in> set pre \<and> fst (main w) = pre @ [LoadEnv, Print (ErrorMessage ?e)]))"
    using main_before_load[OF l] r p main_load_only_after_prompt[of w] by blast
qed

theorem missing_key_fails_after_prompt_witness:
  "''COMPANY_NAME'' \<in> set REQUIRED_ENV_KEYS \<and>
   map_of (env_of_items (w_dotenv missing_key_world)) ''COMPANY_NAME'' = None \<and>
   LoadEnv \<in> set (fst (main missing_key_world)) \<and>
   snd (main missing_key_world) = Returned 1 \<and>
   (\<exists>pre. ReadConsole \<in> set pre \<and>
      fst (main missing_key_world) =
        pre @ [LoadEnv, Print (ErrorMessage (MissingRequiredKeys
           (filter (\<lambda>k. map_of (env_of_items (w_dotenv missing_key_world)) k = None \<or>
                         map_of (env_of_items (w_dotenv missing_key_world)) k = Some [])
              REQUIRED_ENV_KEYS)))])"
proof -
  let ?w = "missing_key_world"
  have k: "''COMPANY_NAME'' \<in> set REQUIRED_ENV_KEYS" by (simp add: REQUIRED_ENV_KEYS_def)
  have m: "map_of (env_of_items (w_dotenv ?w)) ''COMPANY_NAME'' = None" by (rule missing_key_lookup)
  have l: "LoadEnv \<in> set (fst (main ?w))" by (simp add: missing_key_run)
  from missing_key_fails_after_prompt[of "''COMPANY_NAME''" ?w] k m l
  show ?thesis by blast
qed

section \<open>What the prompt accepts\<close>


lemma takeWhile_digits_all: "list_all is_digit g \<Longrightarrow> takeWhile is_digit g = g"
  by (induction g) auto

















section \<open>Exceptions that leave main\<close>

text \<open>
  Claim C8 does not hold of the code: the counter is read outside every \<^verbatim>\<open>try\<close> block
  that has an \<^verbatim>\<open>except\<close> clause, so a counter file that holds \<^verbatim>\<open>abc\<close> makes the
  exception of \<^verbatim>\<open>_read_last_invoice_number\<close> leave \<^verbatim>\<open>main\<close>: the program prints no
  error message of its own and returns no status.
\<close>

theorem corrupt_counter_leaves_main:
  "main corrupt_counter_world =
     ([MakeInvoicesDir, Print (AlreadyGenerated ''none yet''), ReadConsole, CheckTools, LoadEnv,
       ReadCounter],
      Raised (InvalidCounterContent ''abc''))"
  by code_simp

section \<open>Sequence numbers are not reused\<close>

text \<open>
  The next filename is never the name of a file that the scan of the directory has seen:
  it has the current format and carries a number above every sequence number found.
  So the test for an existing output file can only succeed on a file system that answers
  it differently from the scan.
\<close>

lemma str_nat_length: "0 < k \<Longrightarrow> n < 10 ^ k \<Longrightarrow> length (str_nat n) \<le> k"
proof (induction n arbitrary: k rule: str_nat.induct)
  case (1 n)
  show ?case
  proof (cases "n < 10")
    case True
    have "length (str_nat n) = 1" using True by (subst str_nat.simps) simp
    with "1.prems" show ?thesis by simp
  next
    case False
    from "1.prems" obtain j where j: "k = Suc j" by (cases k) auto
    with False "1.prems" have j0: "0 < j" by (cases j) auto
    from "1.prems" j have "n < 10 * 10 ^ j" by simp
    then have "n div 10 < 10 ^ j" by (simp add: div_less_iff_less_mult mult.commute)
    with "1.IH"[OF False j0] have "length (str_nat (n div 10)) \<le> j" by simp
    moreover have "length (str_nat n) = Suc (length (str_nat (n div 10)))"
      using False by (subst str_nat.simps) simp
    ultimately show ?thesis using j by simp
  qed
qed

lemma zfill_digits: "list_all is_digit s \<Longrightarrow> list_all is_digit (zfill w s)"
proof -
  have z: "is_digit CHR ''0''" by (simp add: is_digit_def)
  assume "list_all is_digit s"
  then show ?thesis using z by (auto simp: zfill_def list_all_iff)
qed

lemma zfill_length: "length s \<le> w \<Longrightarrow> length (zfill w s) = w"
  by (simp add: zfill_def)

lemma fmt_zero_digits:
  assumes "0 < k" "0 \<le> i" "i < 10 ^ k"
  shows "length (fmt_zero k i) = k" "list_all is_digit (fmt_zero k i)"
proof -
  from assms(2,3) have "int (nat i) < int (10 ^ k)" by simp
  then have "nat i < 10 ^ k" by (simp only: of_nat_less_iff)
  with assms(1) have "length (str_nat (nat i)) \<le> k" by (rule str_nat_length)
  with assms(2) show "length (fmt_zero k i) = k" "list_all is_digit (fmt_zero k i)"
    by (simp_all add: fmt_zero_def zfill_length zfill_digits str_nat_digits)
qed

lemma py_str_int_digit_string: "0 \<le> n \<Longrightarrow> digit_string (py_str_int n) \<and> digits_val (py_str_int n) = n"
  by (simp add: digit_string_def py_str_int_def str_nat_nonempty str_nat_digits digits_val_str_nat)

lemma next_number_positive:
  assumes "next_number counter_file (Some names) = Inr n"
  shows "0 < n" "\<forall>k \<in> seq_numbers names. k < n"
proof -
  from assms obtain c where c: "read_last_invoice_number counter_file = Inr c"
    by (auto simp: next_number_def split: sum.splits)
  with assms have n: "n = max c (Max (insert 0 (seq_numbers names))) + 1"
    by (simp add: next_number_eq)
  have m: "k \<le> Max (insert 0 (seq_numbers names))" if "k \<in> insert 0 (seq_numbers names)" for k
    using that finite_seq_numbers[of names] by (intro Max_ge) auto
  from m[of 0] n show "0 < n" by simp
  from m n show "\<forall>k \<in> seq_numbers names. k < n" by fastforce
qed

lemma next_filename_is_new:
  assumes "next_number counter_file (Some names) = Inr n"
    and "prompt_target default_year console = Inr t"
  shows "''Invoice_'' @ year_str t @ ''_'' @ month_str t @ ''_#'' @ py_str_int n @ ''.pdf'' \<notin> set names"
proof
  let ?name = "''Invoice_'' @ year_str t @ ''_'' @ month_str t @ ''_#'' @ py_str_int n @ ''.pdf''"
  assume mem: "?name \<in> set names"
  from prompt_target_range[OF assms(2)]
  have r: "1 \<le> month t" "month t \<le> 12" "1900 \<le> year t" "year t \<le> 3000" by simp_all
  have y: "length (year_str t) = 4" "list_all is_digit (year_str t)"
    unfolding year_str_def using r by (simp_all add: fmt_zero_digits)
  have m: "length (month_str t) = 2" "list_all is_digit (month_str t)"
    unfolding month_str_def using r by (simp_all add: fmt_zero_digits)
  from next_number_positive[OF assms(1)] have pos: "0 \<le> n" and less: "\<forall>k \<in> seq_numbers names. k < n"
    by simp_all
  have "is_record_of ?name (digits_val (year_str t), digits_val (month_str t), n)"
    unfolding is_record_of_def
    using y m py_str_int_digit_string[OF pos]
    by (intro exI[of _ "year_str t"] exI[of _ "month_str t"] exI[of _ "py_str_int n"])
       (simp add: current_name_def)
  with mem have "n \<in> seq_numbers names"
    unfolding seq_numbers_def filename_records_def by blast
  with less show False by blast
qed

end
